theory Spec2Isabelle
  imports Complex_Main "HOL-Library.Word" "HOL-Library.AList" "HOL-Library.Char_ord"
    "HOL-Library.List_Lexorder" "HOL-Library.Multiset"
begin

section \<open>Values of the JavaScript program\<close>

text \<open>
  The program is \<^verbatim>\<open>app.js\<close>, a browser script. JavaScript strings are modelled as
  \<^typ>\<open>string\<close>, the elements of a \<^verbatim>\<open>Uint8Array\<close> as 8-bit words, integers (byte
  sizes, millisecond timestamps) as \<^typ>\<open>nat\<close> and \<^typ>\<open>int\<close>.
\<close>

type_synonym byte = "8 word"

text \<open>
  A JavaScript number: not-a-number, the two infinities, or a finite value (the two
  zeros are one value here; the program nowhere tells them apart).
\<close>

datatype jsnum = NaN | NegInf | Finite rat | PosInf

text \<open>
  The order of numbers, as \<^verbatim>\<open><\<close> and IndexedDB compare them. \<^verbatim>\<open>NaN\<close> compares with
  nothing and is no key of a store; to make the order total it is put below every number.
\<close>

fun jsnum_less :: "jsnum \<Rightarrow> jsnum \<Rightarrow> bool" where
  "jsnum_less NaN b = (b \<noteq> NaN)"
| "jsnum_less NegInf b = (b \<noteq> NaN \<and> b \<noteq> NegInf)"
| "jsnum_less (Finite p) (Finite q) = (p < q)"
| "jsnum_less (Finite p) b = (b = PosInf)"
| "jsnum_less PosInf b = False"

instantiation jsnum :: linorder
begin

definition less_jsnum :: "jsnum \<Rightarrow> jsnum \<Rightarrow> bool" where
  "less_jsnum a b = jsnum_less a b"

definition less_eq_jsnum :: "jsnum \<Rightarrow> jsnum \<Rightarrow> bool" where
  "less_eq_jsnum a b = (jsnum_less a b \<or> a = b)"

instance
proof
  fix x y z :: jsnum
  show "(x < y) = (x \<le> y \<and> \<not> y \<le> x)"
    by (cases x; cases y) (auto simp: less_jsnum_def less_eq_jsnum_def)
  show "x \<le> x" by (simp add: less_eq_jsnum_def)
  show "x \<le> y \<Longrightarrow> y \<le> z \<Longrightarrow> x \<le> z"
    by (cases x; cases y; cases z) (auto simp: less_eq_jsnum_def)
  show "x \<le> y \<Longrightarrow> y \<le> x \<Longrightarrow> x = y"
    by (cases x; cases y) (auto simp: less_eq_jsnum_def)
  show "x \<le> y \<or> y \<le> x"
    by (cases x; cases y) (auto simp: less_eq_jsnum_def)
qed

end

text \<open>
  The difference \<^verbatim>\<open>a - b\<close> of two numbers, and whether a number is greater than zero.
\<close>

fun js_minus :: "jsnum \<Rightarrow> jsnum \<Rightarrow> jsnum" where
  "js_minus NaN b = NaN"
| "js_minus a NaN = NaN"
| "js_minus (Finite p) (Finite q) = Finite (p - q)"
| "js_minus (Finite p) PosInf = NegInf"
| "js_minus (Finite p) NegInf = PosInf"
| "js_minus PosInf PosInf = NaN"
| "js_minus PosInf b = PosInf"
| "js_minus NegInf NegInf = NaN"
| "js_minus NegInf b = NegInf"

fun js_positive :: "jsnum \<Rightarrow> bool" where
  "js_positive (Finite p) = (0 < p)"
| "js_positive PosInf = True"
| "js_positive v = False"

text \<open>A \<^verbatim>\<open>Blob\<close>: its bytes and its \<^verbatim>\<open>type\<close>.\<close>

record blob =
  blob_bytes :: "byte list"
  blob_type :: string

text \<open>
  A \<^verbatim>\<open>File\<close>: a blob with a name and a last-modified time. \<^verbatim>\<open>file.size\<close> is the
  number of bytes of the file.
\<close>

record jsfile =
  file_name :: string
  file_type :: string
  file_lastModified :: int
  file_bytes :: "byte list"

definition file_size :: "jsfile \<Rightarrow> nat" where
  "file_size f = length (file_bytes f)"

definition file_blob :: "jsfile \<Rightarrow> blob" where
  "file_blob f = \<lparr>blob_bytes = file_bytes f, blob_type = file_type f\<rparr>"

subsection \<open>Values read from JSON\<close>

text \<open>
  The values that \<^verbatim>\<open>JSON.parse\<close> builds, that the structured clone of IndexedDB keeps
  and that \<^verbatim>\<open>JSON.stringify\<close> writes: \<^verbatim>\<open>null\<close>, booleans, numbers, strings, arrays, and
  objects with their properties in order. A number literal beyond the range of a double
  (\<^verbatim>\<open>1e999\<close>) is parsed as an infinity. \<^verbatim>\<open>undefined\<close>, the value of a missing property, is
  \<open>None\<close> where a property is read.
\<close>

datatype json =
  JNull | JBool bool | JNumber jsnum | JString string | JArray "json list"
  | JObject "(string \<times> json) list"

text \<open>
  Truthiness, and \<^verbatim>\<open>x || d\<close> on a value and on a property that may be missing:
  \<^verbatim>\<open>undefined\<close>, \<^verbatim>\<open>null\<close>, \<^verbatim>\<open>false\<close>, \<open>0\<close>, \<^verbatim>\<open>NaN\<close> and the empty string are falsy, every
  array and object is truthy.
\<close>

fun js_truthy :: "json \<Rightarrow> bool" where
  "js_truthy JNull = False"
| "js_truthy (JBool b) = b"
| "js_truthy (JNumber n) = (n \<noteq> NaN \<and> n \<noteq> Finite 0)"
| "js_truthy (JString x) = (x \<noteq> [])"
| "js_truthy (JArray xs) = True"
| "js_truthy (JObject ps) = True"

definition js_or :: "json \<Rightarrow> json \<Rightarrow> json" where
  "js_or x d = (if js_truthy x then x else d)"

definition field_or :: "json option \<Rightarrow> json \<Rightarrow> json" where
  "field_or x d = (case x of None \<Rightarrow> d | Some v \<Rightarrow> js_or v d)"

text \<open>The same on a string and on an integer.\<close>

definition str_or :: "string \<Rightarrow> string \<Rightarrow> string" where
  "str_or x d = (if x = [] then d else x)"

text \<open>The number \<^verbatim>\<open>Date.now()\<close> returns, an integer, as a value.\<close>

definition js_int :: "int \<Rightarrow> json" where
  "js_int i = JNumber (Finite (of_int i))"

text \<open>
  \<^verbatim>\<open>imageSignatures.has(signature)\<close>. A \<^verbatim>\<open>Set\<close> compares strings, numbers and booleans by
  value and an array or an object by identity. The arrays and objects that the script
  passes to \<^verbatim>\<open>has\<close> are new ones each time (built by \<^verbatim>\<open>JSON.parse\<close> from the text of a
  file, or read from the store as a copy), so the set holds none of them: for those the
  test fails, whatever values the set holds.
\<close>

fun js_is_object :: "json \<Rightarrow> bool" where
  "js_is_object (JArray xs) = True"
| "js_is_object (JObject ps) = True"
| "js_is_object v = False"

definition Set_has :: "json set \<Rightarrow> json \<Rightarrow> bool" where
  "Set_has S v = (\<not> js_is_object v \<and> v \<in> S)"


text \<open>A value all of whose numbers are finite.\<close>

fun json_finite :: "json \<Rightarrow> bool" where
  "json_finite (JNumber n) = (case n of Finite q \<Rightarrow> True | _ \<Rightarrow> False)"
| "json_finite (JArray xs) = list_all json_finite xs"
| "json_finite (JObject ps) = list_all (\<lambda>p. json_finite (snd p)) ps"
| "json_finite v = True"

text \<open>
  The number that arithmetic makes of a value (\<^verbatim>\<open>ToNumber\<close>). For \<^verbatim>\<open>null\<close>, a boolean and a
  number it is as below. For a string it is the number the string spells, and an array or
  an object is first converted to a string; that conversion is not modelled (for long
  numerals ECMAScript leaves its result in part to the implementation, and for an
  object with a property \<^verbatim>\<open>toString\<close> it throws): \<open>text_number\<close> stands for its result,
  and nothing is known about it. The theorems that order values by their number speak
  of numbers only.
\<close>

definition text_number :: "json \<Rightarrow> jsnum" where
  "text_number = undefined"

fun js_ToNumber :: "json \<Rightarrow> jsnum" where
  "js_ToNumber JNull = Finite 0"
| "js_ToNumber (JBool b) = (if b then Finite 1 else Finite 0)"
| "js_ToNumber (JNumber n) = n"
| "js_ToNumber v = text_number v"

subsection \<open>\<^verbatim>\<open>Array.prototype.sort\<close> with a comparator\<close>

text \<open>
  \<^verbatim>\<open>xs.sort(cmp)\<close> is stable; \<open>x\<close> goes behind \<open>y\<close> when \<^verbatim>\<open>cmp(x, y)\<close> is greater than zero
  (a result of \<^verbatim>\<open>NaN\<close> counts as zero). With a comparator that is consistent this
  determines the result, which is that of sorting by insertion, as here. With a comparator
  that is not consistent (one that returns \<^verbatim>\<open>NaN\<close> for some pairs and not for others)
  ECMAScript leaves the order to the implementation; the model then still sorts by
  insertion, and no theorem states an order for that case.
\<close>

fun insert_sorted :: "('a \<Rightarrow> 'a \<Rightarrow> jsnum) \<Rightarrow> 'a \<Rightarrow> 'a list \<Rightarrow> 'a list" where
  "insert_sorted cmp x [] = [x]"
| "insert_sorted cmp x (y # ys) =
     (if js_positive (cmp x y) then y # insert_sorted cmp x ys else x # y # ys)"

definition Array_sort :: "('a \<Rightarrow> 'a \<Rightarrow> jsnum) \<Rightarrow> 'a list \<Rightarrow> 'a list" where
  "Array_sort cmp xs = foldr (insert_sorted cmp) xs []"

subsection \<open>Keys of IndexedDB\<close>

text \<open>
  A key of an object store: a number, a string, or an array of keys (dates and binary
  keys do not come from JSON). Numbers come before strings and strings before arrays;
  numbers are compared by value, strings by their characters, arrays element by element,
  a proper prefix coming first.
\<close>

datatype idb_key = Key_number jsnum | Key_string string | Key_array "idb_key list"

fun key_less :: "idb_key \<Rightarrow> idb_key \<Rightarrow> bool"
  and keys_less :: "idb_key list \<Rightarrow> idb_key list \<Rightarrow> bool" where
  "key_less (Key_number a) (Key_number b) = (a < b)"
| "key_less (Key_number a) (Key_string y) = True"
| "key_less (Key_number a) (Key_array ys) = True"
| "key_less (Key_string x) (Key_number b) = False"
| "key_less (Key_string x) (Key_string y) = (x < y)"
| "key_less (Key_string x) (Key_array ys) = True"
| "key_less (Key_array xs) (Key_number b) = False"
| "key_less (Key_array xs) (Key_string y) = False"
| "key_less (Key_array xs) (Key_array ys) = keys_less xs ys"
| "keys_less [] [] = False"
| "keys_less [] (y # ys) = True"
| "keys_less (x # xs) [] = False"
| "keys_less (x # xs) (y # ys) = (key_less x y \<or> (x = y \<and> keys_less xs ys))"

instantiation idb_key :: linorder
begin

definition less_idb_key :: "idb_key \<Rightarrow> idb_key \<Rightarrow> bool" where
  "less_idb_key a b = key_less a b"

definition less_eq_idb_key :: "idb_key \<Rightarrow> idb_key \<Rightarrow> bool" where
  "less_eq_idb_key a b = (key_less a b \<or> a = b)"

instance
proof
  have irrefls: "\<not> keys_less xs xs" if "\<And>x. x \<in> set xs \<Longrightarrow> \<not> key_less x x" for xs
    using that by (induction xs) auto
  have irrefl: "\<not> key_less a a" for a
    by (induction a) (auto simp: irrefls)
  have asym: "key_less a b \<Longrightarrow> \<not> key_less b a"
    and "keys_less xs ys \<Longrightarrow> \<not> keys_less ys xs" for a b xs ys
    by (induction a b and xs ys rule: key_less_keys_less.induct) (auto simp: irrefl)
  have total: "key_less a b \<or> a = b \<or> key_less b a"
    and "keys_less xs ys \<or> xs = ys \<or> keys_less ys xs" for a b xs ys
    by (induction a b and xs ys rule: key_less_keys_less.induct) auto
  have trans: "key_less a b \<Longrightarrow> key_less b c \<Longrightarrow> key_less a c"
    and "keys_less xs ys \<Longrightarrow> keys_less ys zs \<Longrightarrow> keys_less xs zs" for a b c xs ys zs
  proof (induction a b and xs ys arbitrary: c and zs rule: key_less_keys_less.induct)
    case (1 a b) then show ?case by (cases c) auto
  next
    case (2 a y) then show ?case by (cases c) auto
  next
    case (3 a ys) then show ?case by (cases c) auto
  next
    case (4 x b) then show ?case by (cases c) auto
  next
    case (5 x y) then show ?case by (cases c) auto
  next
    case (6 x ys) then show ?case by (cases c) auto
  next
    case (7 xs b) then show ?case by (cases c) auto
  next
    case (8 xs y) then show ?case by (cases c) auto
  next
    case (9 xs ys) then show ?case by (cases c) auto
  next
    case 10 then show ?case by simp
  next
    case (11 y ys) then show ?case by (cases zs) auto
  next
    case (12 x xs) then show ?case by simp
  next
    case (13 x xs y ys)
    show ?case
    proof (cases zs)
      case Nil
      with 13(4) show ?thesis by simp
    next
      case (Cons z rest)
      from 13(3) have xy: "key_less x y \<or> (x = y \<and> keys_less xs ys)" by simp
      from 13(4) Cons have yz: "key_less y z \<or> (y = z \<and> keys_less ys rest)" by simp
      from xy yz 13(1) [of z] 13(2) [of rest] show ?thesis unfolding Cons by auto
    qed
  qed
  fix x y z :: idb_key
  show "(x < y) = (x \<le> y \<and> \<not> y \<le> x)"
    using asym [of x y] irrefl [of x] by (auto simp: less_idb_key_def less_eq_idb_key_def)
  show "x \<le> x" by (simp add: less_eq_idb_key_def)
  show "x \<le> y \<Longrightarrow> y \<le> z \<Longrightarrow> x \<le> z"
    using trans [of x y z] by (auto simp: less_eq_idb_key_def)
  show "x \<le> y \<Longrightarrow> y \<le> x \<Longrightarrow> x = y"
    using asym [of x y] by (auto simp: less_eq_idb_key_def)
  show "x \<le> y \<or> y \<le> x"
    using total [of x y] by (auto simp: less_eq_idb_key_def)
qed

end

text \<open>
  The key that IndexedDB makes of a value (\<open>None\<close> when the value is no valid key:
  \<^verbatim>\<open>NaN\<close>, \<^verbatim>\<open>null\<close>, a boolean, an object, or an array with such an element).
\<close>

fun to_key :: "json \<Rightarrow> idb_key option" where
  "to_key (JNumber n) = (if n = NaN then None else Some (Key_number n))"
| "to_key (JString x) = Some (Key_string x)"
| "to_key (JArray xs) = map_option Key_array (those (map to_key xs))"
| "to_key v = None"

subsection \<open>Numbers as strings\<close>

text \<open>
  \<^verbatim>\<open>String(n)\<close> of an integer (below \<open>10^21\<close> in absolute value, which sizes and
  millisecond timestamps are): its decimal digits, with a minus sign when negative.
\<close>

definition digit_char :: "nat \<Rightarrow> char" where
  "digit_char d = char_of (48 + d)"

fun nat_to_string :: "nat \<Rightarrow> string" where
  "nat_to_string n =
     (if n < 10 then [digit_char n] else nat_to_string (n div 10) @ [digit_char (n mod 10)])"

definition int_to_string :: "int \<Rightarrow> string" where
  "int_to_string i =
     (if i < 0 then CHR ''-'' # nat_to_string (nat (- i)) else nat_to_string (nat i))"

definition is_digit :: "char \<Rightarrow> bool" where
  "is_digit c = (48 \<le> (of_char c :: nat) \<and> (of_char c :: nat) \<le> 57)"

fun digits_value :: "nat \<Rightarrow> string \<Rightarrow> nat" where
  "digits_value acc [] = acc"
| "digits_value acc (c # cs) = digits_value (acc * 10 + ((of_char c :: nat) - 48)) cs"

section \<open>Signature engine\<close>

text \<open>
  \<^verbatim>\<open>function fileSignature(file) {
    return [file.name, file.type, file.size, file.lastModified].join("::");
  }\<close>
\<close>

definition fileSignature :: "jsfile \<Rightarrow> string" where
  "fileSignature f =
     file_name f @ ''::'' @ file_type f @ ''::'' @ nat_to_string (file_size f) @ ''::'' @
     int_to_string (file_lastModified f)"

text \<open>
  The signature of page \<open>n\<close> of a document, as \<^verbatim>\<open>addPdfFile\<close> builds it:
  \<^verbatim>\<open>`${fileSignature(file)}::page${pageNumber}`\<close>.
\<close>

definition pageSignature :: "jsfile \<Rightarrow> nat \<Rightarrow> string" where
  "pageSignature f pageNumber = fileSignature f @ ''::page'' @ nat_to_string pageNumber"


section \<open>Browser facilities the script calls\<close>

subsection \<open>The Blob constructor\<close>

text \<open>
  \<^verbatim>\<open>new Blob([buffer], { type })\<close> keeps the bytes and normalises the type as the File
  API prescribes: a type with a character outside U+0020 to U+007E becomes the empty
  string, any other type is converted to ASCII lower case.
\<close>

definition ascii_lower :: "char \<Rightarrow> char" where
  "ascii_lower c =
     (if 65 \<le> (of_char c :: nat) \<and> (of_char c :: nat) \<le> 90
      then char_of ((of_char c :: nat) + 32) else c)"

definition printable_ascii :: "char \<Rightarrow> bool" where
  "printable_ascii c = (32 \<le> (of_char c :: nat) \<and> (of_char c :: nat) \<le> 126)"

definition Blob_type :: "string \<Rightarrow> string" where
  "Blob_type t = (if list_all printable_ascii t then map ascii_lower t else [])"

definition new_Blob :: "byte list \<Rightarrow> string \<Rightarrow> blob" where
  "new_Blob buffer t = \<lparr>blob_bytes = buffer, blob_type = Blob_type t\<rparr>"

subsection \<open>Base64: \<^verbatim>\<open>btoa\<close> and \<^verbatim>\<open>atob\<close>\<close>


definition b64_index :: "char \<Rightarrow> nat option" where
  "b64_index c =
     (let n = (of_char c :: nat) in
      if 65 \<le> n \<and> n \<le> 90 then Some (n - 65)
      else if 97 \<le> n \<and> n \<le> 122 then Some (n - 71)
      else if 48 \<le> n \<and> n \<le> 57 then Some (n + 4)
      else if c = CHR ''+'' then Some 62
      else if c = CHR ''/'' then Some 63
      else None)"



definition is_ascii_whitespace :: "char \<Rightarrow> bool" where
  "is_ascii_whitespace c = ((of_char c :: nat) \<in> {9, 10, 12, 13, 32})"

text \<open>On the reversed data: one or two trailing \<open>=\<close> are removed.\<close>

fun strip_padding_rev :: "string \<Rightarrow> string" where
  "strip_padding_rev (x # y # r) =
     (if x = CHR ''='' then (if y = CHR ''='' then r else y # r) else x # y # r)"
| "strip_padding_rev [x] = (if x = CHR ''='' then [] else [x])"
| "strip_padding_rev [] = []"

fun octets :: "nat list \<Rightarrow> string" where
  "octets (p # q # r # t # rest) =
     (let n = p * 262144 + q * 4096 + r * 64 + t in
      [char_of (n div 65536), char_of (n div 256 mod 256), char_of (n mod 256)]) @ octets rest"
| "octets [p, q, r] =
     (let n = (p * 4096 + q * 64 + r) div 4 in [char_of (n div 256), char_of (n mod 256)])"
| "octets [p, q] = [char_of ((p * 64 + q) div 16)]"
| "octets _ = []"

definition atob :: "string \<Rightarrow> string option" where
  "atob data =
     (let d0 = filter (\<lambda>c. \<not> is_ascii_whitespace c) data;
          d = (if length d0 mod 4 = 0 then rev (strip_padding_rev (rev d0)) else d0)
      in if length d mod 4 = 1 then None
         else (case those (map b64_index d) of
                 None \<Rightarrow> None
               | Some ks \<Rightarrow> Some (octets ks)))"




text \<open>
  \<^verbatim>\<open>function base64ToArrayBuffer(base64) {
    const binary = atob(base64);
    const bytes = new Uint8Array(binary.length);
    for (let i = 0; i < length; i += 1) { bytes[i] = binary.charCodeAt(i); }
    return bytes.buffer;
  }\<close>
  \<open>None\<close> when \<^verbatim>\<open>atob\<close> throws.
\<close>

definition charCode_byte :: "char \<Rightarrow> byte" where
  "charCode_byte c = of_nat (of_char c)"

definition base64ToArrayBuffer :: "string \<Rightarrow> byte list option" where
  "base64ToArrayBuffer base64 = map_option (map charCode_byte) (atob base64)"

section \<open>Program state\<close>

text \<open>
  An element of \<^verbatim>\<open>imageEntries\<close>: \<^verbatim>\<open>{ url, signature, label }\<close>. The object URL
  made by \<^verbatim>\<open>URL.createObjectURL(blob)\<close> stands for that blob, which is what the
  field holds here. The signature and the label of an image or a page are strings; those
  of a slide of a package are whatever values the package holds.
\<close>

record entry =
  entry_url :: blob
  entry_signature :: json
  entry_label :: json

text \<open>A record of the IndexedDB object store \<^verbatim>\<open>slides\<close> (key path \<^verbatim>\<open>signature\<close>).\<close>

record slide_record =
  rec_signature :: json
  rec_label :: json
  rec_addedAt :: json
  rec_bytes :: "byte list"
  rec_type :: string

text \<open>
  The state the script reads and writes: the globals \<^verbatim>\<open>imageEntries\<close> and
  \<^verbatim>\<open>imageSignatures\<close>, the object store (\<open>None\<close> when \<^verbatim>\<open>openDatabase()\<close> resolves
  to \<^verbatim>\<open>null\<close>; otherwise its records by key, a transaction on an open database being
  taken to complete), the \<^verbatim>\<open>value\<close> of the two delay controls (as the number whose
  string the script assigns; what the \<^verbatim>\<open>input\<close> elements of the page, which is not part
  of the script, make of that string is not modelled), and the \<^verbatim>\<open>localStorage\<close> item of
  the delay (outer \<open>None\<close> when \<^verbatim>\<open>localStorage\<close> is undefined, inner \<open>None\<close> when the item
  is not set).
\<close>

record state =
  imageEntries :: "entry list"
  imageSignatures :: "json set"
  slides_store :: "(idb_key \<times> slide_record) list option"
  delayRange_value :: jsnum
  delayInput_value :: jsnum
  localStorage_delay :: "jsnum option option"

section \<open>Content store\<close>

text \<open>
  \<^verbatim>\<open>saveSlideRecord({ signature, label, blob, addedAt })\<close>: without a database it
  returns at once; otherwise \<^verbatim>\<open>store.put(record)\<close> inserts the record or replaces the
  one with the same key. When the signature is no valid key, \<^verbatim>\<open>put\<close> throws, which the
  function catches: nothing is stored.
\<close>

definition saveSlideRecord :: "json \<Rightarrow> json \<Rightarrow> blob \<Rightarrow> json \<Rightarrow> state \<Rightarrow> state" where
  "saveSlideRecord signature label b addedAt s =
     (case slides_store s of
        None \<Rightarrow> s
      | Some store \<Rightarrow>
          (case to_key signature of
             None \<Rightarrow> s
           | Some k \<Rightarrow>
               s\<lparr>slides_store := Some (AList.update k
                   \<lparr>rec_signature = signature, rec_label = label, rec_addedAt = addedAt,
                    rec_bytes = blob_bytes b,
                    rec_type = str_or (blob_type b) ''application/octet-stream''\<rparr> store)\<rparr>))"

text \<open>\<^verbatim>\<open>store.getAll()\<close> returns the records in ascending order of their keys.\<close>

definition getAll :: "(idb_key \<times> slide_record) list \<Rightarrow> slide_record list" where
  "getAll store = map snd (sort_key fst store)"

text \<open>
  \<^verbatim>\<open>getPersistedSlides()\<close>: all records, sorted with the comparator
  \<^verbatim>\<open>(a, b) => (a.addedAt || 0) - (b.addedAt || 0)\<close>; the empty array without a database.
  The comparator is taken to return a number. (On a record whose \<^verbatim>\<open>addedAt\<close> is an object
  with a property \<^verbatim>\<open>toString\<close> the subtraction throws and the promise of the source is
  never settled; and where the subtraction gives \<^verbatim>\<open>NaN\<close> for some records and not for
  others, ECMAScript leaves the order to the implementation. What is proved of the list
  that the function returns is proved for records whose \<^verbatim>\<open>addedAt\<close> is read as a number
  without such a conversion.)
\<close>

definition compare_addedAt :: "slide_record \<Rightarrow> slide_record \<Rightarrow> jsnum" where
  "compare_addedAt a b =
     js_minus (js_ToNumber (js_or (rec_addedAt a) (JNumber (Finite 0))))
              (js_ToNumber (js_or (rec_addedAt b) (JNumber (Finite 0))))"

definition getPersistedSlides :: "state \<Rightarrow> slide_record list" where
  "getPersistedSlides s =
     (case slides_store s of
        None \<Rightarrow> []
      | Some store \<Rightarrow> Array_sort compare_addedAt (getAll store))"

definition clearPersistedSlides :: "state \<Rightarrow> state" where
  "clearPersistedSlides s =
     (case slides_store s of None \<Rightarrow> s | Some store \<Rightarrow> s\<lparr>slides_store := Some []\<rparr>)"

section \<open>Registration\<close>

text \<open>
  \<^verbatim>\<open>async function registerEntry({ blob, label, signature, persist = true, addedAt = Date.now() }) {
    if (imageSignatures.has(signature)) { return false; }
    const url = URL.createObjectURL(blob);
    imageEntries.push({ url, signature, label });
    imageSignatures.add(signature);
    if (persist) { await saveSlideRecord({ signature, label, blob, addedAt }); }
    return true;
  }\<close>
  The caller passes \<open>addedAt\<close>; where the source leaves it out, the caller passes the
  reading of the clock.
\<close>

definition registerEntry ::
  "blob \<Rightarrow> json \<Rightarrow> json \<Rightarrow> bool \<Rightarrow> json \<Rightarrow> state \<Rightarrow> bool \<times> state" where
  "registerEntry b label signature persist addedAt s =
     (if Set_has (imageSignatures s) signature then (False, s)
      else
        let s1 = s\<lparr>imageEntries := imageEntries s @
                      [\<lparr>entry_url = b, entry_signature = signature, entry_label = label\<rparr>],
                    imageSignatures := insert signature (imageSignatures s)\<rparr>
        in (True, if persist then saveSlideRecord signature label b addedAt s1 else s1))"

section \<open>Delay setting\<close>

definition js_or_zero :: "jsnum \<Rightarrow> jsnum" where
  "js_or_zero x = (if x = NaN \<or> x = Finite 0 then Finite 0 else x)"

fun Math_max :: "jsnum \<Rightarrow> jsnum \<Rightarrow> jsnum" where
  "Math_max NaN y = NaN"
| "Math_max x NaN = NaN"
| "Math_max PosInf y = PosInf"
| "Math_max x PosInf = PosInf"
| "Math_max NegInf y = y"
| "Math_max x NegInf = x"
| "Math_max (Finite a) (Finite b) = Finite (max a b)"

fun Math_min :: "jsnum \<Rightarrow> jsnum \<Rightarrow> jsnum" where
  "Math_min NaN y = NaN"
| "Math_min x NaN = NaN"
| "Math_min NegInf y = NegInf"
| "Math_min x NegInf = NegInf"
| "Math_min PosInf y = y"
| "Math_min x PosInf = x"
| "Math_min (Finite a) (Finite b) = Finite (min a b)"

text \<open>
  \<^verbatim>\<open>function storeDelay(value) {
    if (typeof localStorage === "undefined") { return; }
    try { localStorage.setItem(delayStorageKey, String(value)); } catch (error) { ... }
  }\<close>
\<close>

definition storeDelay :: "jsnum \<Rightarrow> state \<Rightarrow> state" where
  "storeDelay v s =
     (case localStorage_delay s of
        None \<Rightarrow> s
      | Some item \<Rightarrow> s\<lparr>localStorage_delay := Some (Some v)\<rparr>)"

text \<open>
  \<^verbatim>\<open>function applyDelay(value, { persist = true } = {}) {
    const clamped = Math.min(2000, Math.max(0, Number(value) || 0));
    delayRange.value = String(clamped);
    delayInput.value = String(clamped);
    if (persist) { storeDelay(clamped); }
  }\<close>
\<close>

definition clamp_delay :: "jsnum \<Rightarrow> jsnum" where
  "clamp_delay v = Math_min (Finite 2000) (Math_max (Finite 0) (js_or_zero v))"

definition applyDelay :: "jsnum \<Rightarrow> bool \<Rightarrow> state \<Rightarrow> state" where
  "applyDelay v persist s =
     (let clamped = clamp_delay v;
          s1 = s\<lparr>delayRange_value := clamped, delayInput_value := clamped\<rparr>
      in if persist then storeDelay clamped s1 else s1)"

definition DEFAULT_DELAY :: jsnum where
  "DEFAULT_DELAY = Finite 200"

definition getStoredDelay :: "state \<Rightarrow> jsnum option" where
  "getStoredDelay s =
     (case localStorage_delay s of
        None \<Rightarrow> None
      | Some None \<Rightarrow> None
      | Some (Some parsed) \<Rightarrow>
          (case parsed of
             Finite p \<Rightarrow> if 0 \<le> p \<and> p \<le> 2000 then Some parsed else None
           | _ \<Rightarrow> None))"

definition restoreDelaySetting :: "state \<Rightarrow> state" where
  "restoreDelaySetting s =
     (case getStoredDelay s of
        None \<Rightarrow> applyDelay DEFAULT_DELAY False s
      | Some stored \<Rightarrow> applyDelay stored False s)"

section \<open>Package codec\<close>

text \<open>
  A JSON value where the script converts it with \<^verbatim>\<open>Number()\<close>: a missing property
  (\<^verbatim>\<open>undefined\<close>), \<^verbatim>\<open>null\<close>, a boolean or a number; a value of another type (a string,
  an array, an object) is held as the number that \<^verbatim>\<open>Number()\<close> makes of it.
\<close>

datatype json_value =
  J_undefined | J_null | J_bool bool | J_number jsnum | J_converted jsnum

fun js_Number :: "json_value \<Rightarrow> jsnum" where
  "js_Number J_undefined = NaN"
| "js_Number J_null = Finite 0"
| "js_Number (J_bool b) = (if b then Finite 1 else Finite 0)"
| "js_Number (J_number n) = n"
| "js_Number (J_converted n) = n"

text \<open>
  The property \<^verbatim>\<open>type\<close> of a slide entry, as \<^verbatim>\<open>slide.type || "application/octet-stream"\<close>
  and the Blob constructor read it: falsy (missing, \<^verbatim>\<open>null\<close>, \<^verbatim>\<open>false\<close>, \<open>0\<close>, the empty
  string); or truthy, with the string the constructor converts it to (itself, when it is
  a string); or truthy with no such string, the conversion throwing a \<^verbatim>\<open>TypeError\<close> (an
  object with a property \<^verbatim>\<open>toString\<close>, which is no function).
\<close>

datatype type_field = Type_falsy | Type_string string | Type_no_string

text \<open>
  What \<^verbatim>\<open>JSON.parse(text)\<close> gives for a package file, as far as \<^verbatim>\<open>importSavedPackage\<close>
  reads it. A value that is falsy or not of type \<^verbatim>\<open>object\<close> is \<open>Not_an_object\<close>. Of an
  object (or array) the function reads three properties: \<open>data_version\<close> is
  \<^verbatim>\<open>data.version\<close>; \<open>data_delay\<close> is \<^verbatim>\<open>data.delay\<close> when its type is
  \<^verbatim>\<open>number\<close>; \<open>data_slides\<close> is \<^verbatim>\<open>data.slides\<close> when \<^verbatim>\<open>Array.isArray\<close> holds of it.
  An element of \<^verbatim>\<open>slides\<close> that is not an object (every property of it reads as
  \<^verbatim>\<open>undefined\<close>, or it is falsy) is \<open>None\<close>. Of an object, \<^verbatim>\<open>signature\<close>, \<^verbatim>\<open>label\<close> and
  \<^verbatim>\<open>addedAt\<close> are the values the text holds, of any type (\<open>None\<close> when missing): the
  script tests none of them; \<open>slide_type\<close> is as above; \<open>slide_bytes\<close> is \<^verbatim>\<open>slide.bytes\<close> when
  \<^verbatim>\<open>typeof slide.bytes\<close> is \<^verbatim>\<open>string\<close>.
\<close>

record package_slide =
  slide_signature :: "json option"
  slide_label :: "json option"
  slide_type :: type_field
  slide_addedAt :: "json option"
  slide_bytes :: "string option"

record package_data =
  data_version :: json_value
  data_delay :: "jsnum option"
  data_slides :: "package_slide option list option"

datatype json_doc = Not_an_object | Json_object package_data

record import_result =
  result_added :: nat
  result_total :: nat
  result_error :: bool

definition SAVE_PACKAGE_VERSION :: jsnum where
  "SAVE_PACKAGE_VERSION = Finite 1"

text \<open>
  \<^verbatim>\<open>generateImportSignature()\<close>: \<^verbatim>\<open>import-\<close> followed by a random UUID (or a time and
  a random number); the random part is an argument.
\<close>

definition generateImportSignature :: "string \<Rightarrow> string" where
  "generateImportSignature random = ''import-'' @ random"

text \<open>
  The argument \<^verbatim>\<open>{ type: slide.type || "application/octet-stream" }\<close> of the Blob
  constructor, as a string; \<open>None\<close> when the constructor throws.
\<close>

definition type_argument :: "type_field \<Rightarrow> string option" where
  "type_argument t =
     (case t of
        Type_falsy \<Rightarrow> Some ''application/octet-stream''
      | Type_string x \<Rightarrow> Some x
      | Type_no_string \<Rightarrow> None)"

text \<open>
  One iteration of the loop \<^verbatim>\<open>for (const slide of data.slides)\<close>, on the counter
  \<^verbatim>\<open>added\<close> and the state; \<open>now\<close> and \<open>random\<close> are what \<^verbatim>\<open>Date.now()\<close> and the
  random source give in this iteration. The result is \<open>None\<close> when the iteration throws:
  \<^verbatim>\<open>new Blob\<close> is outside the inner \<^verbatim>\<open>try\<close>.
  \<^verbatim>\<open>if (!slide || typeof slide.bytes !== "string") { continue; }
  let buffer;
  try { buffer = base64ToArrayBuffer(slide.bytes); } catch (error) { ...; continue; }
  const blob = new Blob([buffer], { type: slide.type || "application/octet-stream" });
  const label = slide.label || "Image";
  let signature = slide.signature || generateImportSignature();
  const registered = await registerEntry({ blob, label, signature,
    addedAt: slide.addedAt || Date.now() });
  if (registered) { added += 1; }\<close>
\<close>

definition import_slide ::
  "int \<Rightarrow> string \<Rightarrow> package_slide option \<Rightarrow> nat \<times> state \<Rightarrow> (nat \<times> state) option" where
  "import_slide now random slide acc =
     (case slide of
        None \<Rightarrow> Some acc
      | Some sl \<Rightarrow>
          (case slide_bytes sl of
             None \<Rightarrow> Some acc
           | Some base64 \<Rightarrow>
               (case base64ToArrayBuffer base64 of
                  None \<Rightarrow> Some acc
                | Some buffer \<Rightarrow>
                    (case type_argument (slide_type sl) of
                       None \<Rightarrow> None
                     | Some t \<Rightarrow>
                         let b = new_Blob buffer t;
                             label = field_or (slide_label sl) (JString ''Image'');
                             signature = field_or (slide_signature sl)
                                           (JString (generateImportSignature random));
                             addedAt = field_or (slide_addedAt sl) (js_int now);
                             reg = registerEntry b label signature True addedAt (snd acc)
                         in Some (if fst reg then fst acc + 1 else fst acc, snd reg)))))"

text \<open>
  The loop, from the entry at position \<open>i\<close> on: the counter and the state at the head of
  every iteration it reaches and, when no iteration throws, after the last one; and
  whether it completes.
\<close>

fun import_slides ::
  "(nat \<Rightarrow> int) \<Rightarrow> (nat \<Rightarrow> string) \<Rightarrow> nat \<Rightarrow> package_slide option list \<Rightarrow> nat \<times> state
   \<Rightarrow> (nat \<times> state) list \<times> bool" where
  "import_slides now random i [] acc = ([acc], True)"
| "import_slides now random i (slide # rest) acc =
     (case import_slide (now i) (random i) slide acc of
        None \<Rightarrow> ([acc], False)
      | Some acc1 \<Rightarrow>
          (let run = import_slides now random (Suc i) rest acc1 in (acc # fst run, snd run)))"

definition import_failed :: import_result where
  "import_failed = \<lparr>result_added = 0, result_total = 0, result_error = True\<rparr>"

text \<open>
  \<^verbatim>\<open>importSavedPackage(file)\<close>, with the states it passes through. \<open>parsed\<close> is the value
  of \<^verbatim>\<open>JSON.parse(await file.text())\<close>, \<open>None\<close> when either call throws; the \<open>i\<close>-th
  iteration over the slides reads the clock as \<open>now i\<close> and the random source as
  \<open>random i\<close>. The states are: the state in which the loop over the slides starts (after
  \<^verbatim>\<open>applyDelay(data.delay)\<close>, when that is called) and the state after each iteration; for
  a package that is refused, the state of the call alone. An exception in the loop ends
  the call with \<^verbatim>\<open>{ added: 0, total: 0, error: true }\<close>, in the state reached.
  \<^verbatim>\<open>if (!data || typeof data !== "object" ||
      Number(data.version) !== SAVE_PACKAGE_VERSION || !Array.isArray(data.slides)) {
    throw new Error("Unsupported package format");
  }
  if (typeof data.delay === "number") { applyDelay(data.delay); }
  let added = 0;
  const total = data.slides.length;
  for (const slide of data.slides) { ... }
  return { added, total };\<close>
\<close>

definition importSavedPackage_run ::
  "(nat \<Rightarrow> int) \<Rightarrow> (nat \<Rightarrow> string) \<Rightarrow> json_doc option \<Rightarrow> state
   \<Rightarrow> import_result \<times> state list" where
  "importSavedPackage_run now random parsed s =
     (case parsed of
        None \<Rightarrow> (import_failed, [s])
      | Some Not_an_object \<Rightarrow> (import_failed, [s])
      | Some (Json_object data) \<Rightarrow>
          (if js_Number (data_version data) \<noteq> SAVE_PACKAGE_VERSION then (import_failed, [s])
           else
             (case data_slides data of
                None \<Rightarrow> (import_failed, [s])
              | Some slides \<Rightarrow>
                  let s1 = (case data_delay data of
                              None \<Rightarrow> s
                            | Some d \<Rightarrow> applyDelay d True s);
                      total = length slides;
                      run = import_slides now random 0 slides (0, s1);
                      added = fst (last (fst run))
                  in (if snd run
                      then \<lparr>result_added = added, result_total = total, result_error = False\<rparr>
                      else import_failed,
                      map snd (fst run)))))"

text \<open>The result of the call and the state it leaves.\<close>

definition importSavedPackage ::
  "(nat \<Rightarrow> int) \<Rightarrow> (nat \<Rightarrow> string) \<Rightarrow> json_doc option \<Rightarrow> state \<Rightarrow> import_result \<times> state" where
  "importSavedPackage now random parsed s =
     (let run = importSavedPackage_run now random parsed s in (fst run, last (snd run)))"





section \<open>Ingestion pipeline\<close>

text \<open>
  What the surroundings give during one call of \<^verbatim>\<open>addFiles\<close>: whether PDF.js loaded;
  what PDF.js makes of a file's bytes (\<open>None\<close> when the loading task rejects, otherwise
  the outcome of each page in order); what \<^verbatim>\<open>JSON.parse(await file.text())\<close> makes of
  them; and what the clock and the random source give while item \<open>i\<close> (a page number, a
  position in \<^verbatim>\<open>slides\<close>) of the \<open>j\<close>-th file is handled.
\<close>

datatype page_outcome =
  Page_load_fails | Page_render_fails | Page_encode_fails | Page_image "byte list"

record env =
  pdfSupported :: bool
  pdf_getDocument :: "byte list \<Rightarrow> page_outcome list option"
  JSON_parse_text :: "byte list \<Rightarrow> json_doc option"
  Date_now :: "nat \<Rightarrow> nat \<Rightarrow> int"
  random_id :: "nat \<Rightarrow> nat \<Rightarrow> string"

text \<open>
  \<^verbatim>\<open>async function addImageFile(file) {
    const signature = fileSignature(file);
    if (imageSignatures.has(signature)) { return 0; }
    const added = await registerEntry({ blob: file, label: file.name || "Image", signature });
    return added ? 1 : 0;
  }\<close>
\<close>

definition addImageFile :: "int \<Rightarrow> jsfile \<Rightarrow> state \<Rightarrow> nat \<times> state" where
  "addImageFile now f s =
     (let signature = JString (fileSignature f) in
      if Set_has (imageSignatures s) signature then (0, s)
      else
        let reg = registerEntry (file_blob f) (JString (str_or (file_name f) ''Image''))
                    signature True (js_int now) s
        in (if fst reg then 1 else 0, snd reg))"

text \<open>
  The loop of \<^verbatim>\<open>addPdfFile\<close> over the pages, from page \<open>pageNumber\<close> on: a page whose
  signature is known is skipped before it is loaded; a page that fails to load, render
  or encode is skipped; any other is registered as a PNG image.
\<close>

fun pdf_pages ::
  "(nat \<Rightarrow> int) \<Rightarrow> jsfile \<Rightarrow> page_outcome list \<Rightarrow> nat \<Rightarrow> nat \<times> state \<Rightarrow> nat \<times> state" where
  "pdf_pages now f [] pageNumber acc = acc"
| "pdf_pages now f (page # rest) pageNumber acc =
     pdf_pages now f rest (pageNumber + 1)
       (if Set_has (imageSignatures (snd acc)) (JString (pageSignature f pageNumber)) then acc
        else
          (case page of
             Page_image png \<Rightarrow>
               let reg = registerEntry \<lparr>blob_bytes = png, blob_type = ''image/png''\<rparr>
                           (JString (str_or (file_name f) ''PDF'' @ '' - page '' @
                                     nat_to_string pageNumber))
                           (JString (pageSignature f pageNumber)) True (js_int (now pageNumber))
                           (snd acc)
               in (if fst reg then fst acc + 1 else fst acc, snd reg)
           | _ \<Rightarrow> acc))"

record pdf_result =
  pdf_added :: nat
  pdf_total :: nat

text \<open>
  \<^verbatim>\<open>addPdfFile(file)\<close>: the result is \<open>None\<close> when the promise rejects (the document
  cannot be loaded).
\<close>

definition addPdfFile ::
  "env \<Rightarrow> (nat \<Rightarrow> int) \<Rightarrow> jsfile \<Rightarrow> state \<Rightarrow> pdf_result option \<times> state" where
  "addPdfFile e now f s =
     (if \<not> pdfSupported e then (Some \<lparr>pdf_added = 0, pdf_total = 0\<rparr>, s)
      else
        (case pdf_getDocument e (file_bytes f) of
           None \<Rightarrow> (None, s)
         | Some pages \<Rightarrow>
             let acc = pdf_pages now f pages 1 (0, s)
             in (Some \<lparr>pdf_added = fst acc, pdf_total = length pages\<rparr>, snd acc)))"

record ingest_result =
  added :: nat
  supported :: nat
  unsupported :: nat
  pdfUnsupported :: nat
  packageSlidesAdded :: nat
  packagesProcessed :: nat
  packageErrors :: nat
  packageSlidesTotal :: nat

definition no_files :: ingest_result where
  "no_files = \<lparr>added = 0, supported = 0, unsupported = 0, pdfUnsupported = 0,
     packageSlidesAdded = 0, packagesProcessed = 0, packageErrors = 0, packageSlidesTotal = 0\<rparr>"

text \<open>\<^verbatim>\<open>toLowerCase\<close> on a character (a byte read as Latin-1).\<close>

definition toLowerCase :: "char \<Rightarrow> char" where
  "toLowerCase c =
     (let n = (of_char c :: nat) in
      if (65 \<le> n \<and> n \<le> 90) \<or> (192 \<le> n \<and> n \<le> 222 \<and> n \<noteq> 215) then char_of (n + 32) else c)"

definition endsWith :: "string \<Rightarrow> string \<Rightarrow> bool" where
  "endsWith x suffix =
     (length suffix \<le> length x \<and> drop (length x - length suffix) x = suffix)"

definition startsWith :: "string \<Rightarrow> string \<Rightarrow> bool" where
  "startsWith x prefix = (take (length prefix) x = prefix)"

definition isPackageCandidate :: "jsfile \<Rightarrow> bool" where
  "isPackageCandidate f =
     (let name = map toLowerCase (file_name f) in
      file_type f = ''application/json'' \<or> endsWith name ''.json'' \<or> endsWith name ''.lss'' \<or>
      endsWith name ''.slideshow'')"

text \<open>
  The files that reach the branch \<^verbatim>\<open>file.type === "application/pdf"\<close> of \<^verbatim>\<open>addFiles\<close>.
\<close>

definition isPdfFile :: "jsfile \<Rightarrow> bool" where
  "isPdfFile f =
     (\<not> isPackageCandidate f \<and> \<not> startsWith (file_type f) ''image/'' \<and>
      file_type f = ''application/pdf'')"

text \<open>
  One iteration of \<^verbatim>\<open>for (const file of incoming)\<close> in \<^verbatim>\<open>addFiles\<close>, for the file at
  position \<open>j\<close>, on the counters and the state.
\<close>

definition addFiles_step ::
  "env \<Rightarrow> nat \<Rightarrow> jsfile \<Rightarrow> ingest_result \<times> state \<Rightarrow> ingest_result \<times> state" where
  "addFiles_step e j f acc =
     (let r = fst acc; s = snd acc in
      if isPackageCandidate f then
        (let res = importSavedPackage (Date_now e j) (random_id e j)
                     (JSON_parse_text e (file_bytes f)) s
         in if result_error (fst res)
            then (r\<lparr>unsupported := unsupported r + 1, packageErrors := packageErrors r + 1\<rparr>,
                  snd res)
            else (r\<lparr>packagesProcessed := packagesProcessed r + 1,
                     supported := supported r + result_total (fst res),
                     packageSlidesTotal := packageSlidesTotal r + result_total (fst res),
                     added := added r + result_added (fst res),
                     packageSlidesAdded := packageSlidesAdded r + result_added (fst res)\<rparr>,
                  snd res))
      else if startsWith (file_type f) ''image/'' then
        (let res = addImageFile (Date_now e j 0) f s
         in (r\<lparr>supported := supported r + 1, added := added r + fst res\<rparr>, snd res))
      else if file_type f = ''application/pdf'' then
        (if \<not> pdfSupported e
         then (r\<lparr>supported := supported r + 1, pdfUnsupported := pdfUnsupported r + 1\<rparr>, s)
         else
           (let res = addPdfFile e (Date_now e j) f s in
            case fst res of
              Some pages \<Rightarrow>
                (r\<lparr>supported := supported r + 1, added := added r + pdf_added pages\<rparr>, snd res)
            | None \<Rightarrow> (r\<lparr>supported := supported r + 1\<rparr>, snd res)))
      else (r\<lparr>unsupported := unsupported r + 1\<rparr>, s))"

fun addFiles_loop ::
  "env \<Rightarrow> nat \<Rightarrow> jsfile list \<Rightarrow> ingest_result \<times> state \<Rightarrow> ingest_result \<times> state" where
  "addFiles_loop e j [] acc = acc"
| "addFiles_loop e j (f # rest) acc = addFiles_loop e (Suc j) rest (addFiles_step e j f acc)"

definition addFiles :: "env \<Rightarrow> jsfile list \<Rightarrow> state \<Rightarrow> ingest_result \<times> state" where
  "addFiles e files s = (if files = [] then (no_files, s) else addFiles_loop e 0 files (no_files, s))"

text \<open>
  \<^verbatim>\<open>restorePersistedSlides()\<close>: every record with a truthy signature is registered with
  \<^verbatim>\<open>persist: false\<close>, in the order of \<^verbatim>\<open>getPersistedSlides()\<close>. A record holds its
  \<^verbatim>\<open>bytes\<close>, from which the blob is rebuilt.
  \<^verbatim>\<open>for (const slide of storedSlides) {
    if (!slide || !slide.signature) { continue; }
    ... blob = new Blob([slide.bytes], { type: slide.type || "application/octet-stream" }); ...
    await registerEntry({ blob, label: slide.label || "Image", signature: slide.signature,
      persist: false, addedAt: slide.addedAt || Date.now() });
  }\<close>
\<close>

fun restore_slides :: "(nat \<Rightarrow> int) \<Rightarrow> nat \<Rightarrow> slide_record list \<Rightarrow> state \<Rightarrow> state" where
  "restore_slides now i [] s = s"
| "restore_slides now i (slide # rest) s =
     restore_slides now (Suc i) rest
       (if \<not> js_truthy (rec_signature slide) then s
        else snd (registerEntry
                    (new_Blob (rec_bytes slide) (str_or (rec_type slide) ''application/octet-stream''))
                    (js_or (rec_label slide) (JString ''Image'')) (rec_signature slide) False
                    (js_or (rec_addedAt slide) (js_int (now i))) s))"

definition restorePersistedSlides :: "(nat \<Rightarrow> int) \<Rightarrow> state \<Rightarrow> state" where
  "restorePersistedSlides now s = restore_slides now 0 (getPersistedSlides s) s"

text \<open>
  \<^verbatim>\<open>resetGallery()\<close>, on the state of the pipeline: the gallery and the signature set
  are emptied, the store is cleared, the default delay is applied.
\<close>

definition resetGallery :: "state \<Rightarrow> state" where
  "resetGallery s =
     applyDelay DEFAULT_DELAY True
       (clearPersistedSlides (s\<lparr>imageEntries := [], imageSignatures := {}\<rparr>))"

text \<open>
  The end of a session and the start of the next: \<^verbatim>\<open>beforeunload\<close> empties the
  gallery and the signature set, the store and \<^verbatim>\<open>localStorage\<close> stay; the script then
  runs \<^verbatim>\<open>restoreDelaySetting()\<close> and \<^verbatim>\<open>restorePersistedSlides()\<close>.
\<close>

definition startup :: "(nat \<Rightarrow> int) \<Rightarrow> state \<Rightarrow> state" where
  "startup now s =
     restorePersistedSlides now
       (restoreDelaySetting (s\<lparr>imageEntries := [], imageSignatures := {}\<rparr>))"

section \<open>Runs of the program\<close>

text \<open>
  The states the program can be in. On the first visit the gallery is empty and the
  store is empty or unavailable; from then on the user drops, picks or pastes batches
  of files, moves the delay controls, resets the gallery, and leaves and reopens the
  page. A page may also be reopened without anything being restored: the comparator of
  \<^verbatim>\<open>getPersistedSlides\<close> throws on a record whose \<^verbatim>\<open>addedAt\<close> is an object with a property
  \<^verbatim>\<open>toString\<close>, the promise is then never settled, and the gallery stays empty. \<open>ok\<close> says
  which batches (with their surroundings) the user can supply.
\<close>

inductive reachable :: "(env \<Rightarrow> jsfile list \<Rightarrow> bool) \<Rightarrow> state \<Rightarrow> bool"
  for ok :: "env \<Rightarrow> jsfile list \<Rightarrow> bool" where
  first_visit:
    "slides_store s = None \<or> slides_store s = Some [] \<Longrightarrow> reachable ok (startup now s)"
| ingest: "reachable ok s \<Longrightarrow> ok e files \<Longrightarrow> reachable ok (snd (addFiles e files s))"
| delay: "reachable ok s \<Longrightarrow> reachable ok (applyDelay v persist s)"
| reset: "reachable ok s \<Longrightarrow> reachable ok (resetGallery s)"
| reopen: "reachable ok s \<Longrightarrow> reachable ok (startup now s)"
| stalled:
    "reachable ok s \<Longrightarrow>
     reachable ok (restoreDelaySetting (s\<lparr>imageEntries := [], imageSignatures := {}\<rparr>))"


definition any_input :: "env \<Rightarrow> jsfile list \<Rightarrow> bool" where
  "any_input e files = True"

text \<open>
  The slide entries (those that are objects) of a parsed document, and of the packages
  of a batch of files.
\<close>

definition doc_slides :: "json_doc option \<Rightarrow> package_slide list" where
  "doc_slides parsed =
     (case parsed of
        Some (Json_object data) \<Rightarrow>
          (case data_slides data of
             None \<Rightarrow> []
           | Some slides \<Rightarrow> concat (map (\<lambda>x. case x of None \<Rightarrow> [] | Some sl \<Rightarrow> [sl]) slides))
      | _ \<Rightarrow> [])"

definition batch_slides :: "env \<Rightarrow> jsfile list \<Rightarrow> package_slide list" where
  "batch_slides e files = concat (map (\<lambda>f. doc_slides (JSON_parse_text e (file_bytes f))) files)"

text \<open>
  Batches whose packages have, as signatures of their slides, values that are no arrays
  and no objects: strings, as the script writes them into a package, or numbers or
  booleans.
\<close>

definition plain_signature :: "package_slide \<Rightarrow> bool" where
  "plain_signature sl = (case slide_signature sl of None \<Rightarrow> True | Some g \<Rightarrow> \<not> js_is_object g)"

definition plain_input :: "env \<Rightarrow> jsfile list \<Rightarrow> bool" where
  "plain_input e files = list_all plain_signature (batch_slides e files)"

text \<open>
  A value that arithmetic reads as a number without converting a text: not a non-empty
  string, an array or an object.
\<close>

fun json_numeric :: "json \<Rightarrow> bool" where
  "json_numeric (JString x) = (x = [])"
| "json_numeric (JArray xs) = False"
| "json_numeric (JObject ps) = False"
| "json_numeric v = True"





subsection \<open>Invariants\<close>

text \<open>The store holds each record under the key of its signature, once.\<close>

definition store_keyed :: "(idb_key \<times> slide_record) list \<Rightarrow> bool" where
  "store_keyed store =
     (distinct (map fst store) \<and>
      list_all (\<lambda>kr. to_key (rec_signature (snd kr)) = Some (fst kr)) store)"

definition store_ok :: "state \<Rightarrow> bool" where
  "store_ok s = (case slides_store s of None \<Rightarrow> True | Some store \<Rightarrow> store_keyed store)"


text \<open>
  The gallery: the signature set holds the signatures of the entries and no others, and
  no two entries have the same string, number or boolean as their signature.
\<close>

definition plain_signatures :: "state \<Rightarrow> json list" where
  "plain_signatures s = filter (\<lambda>g. \<not> js_is_object g) (map entry_signature (imageEntries s))"

definition gallery_ok :: "state \<Rightarrow> bool" where
  "gallery_ok s =
     (distinct (plain_signatures s) \<and>
      set (map entry_signature (imageEntries s)) = imageSignatures s)"

definition consistent :: "state \<Rightarrow> bool" where
  "consistent s = (gallery_ok s \<and> store_ok s)"

text \<open>No signature of the gallery or of the store is an array or an object.\<close>

definition plain_state :: "state \<Rightarrow> bool" where
  "plain_state s =
     (list_all (\<lambda>e. \<not> js_is_object (entry_signature e)) (imageEntries s) \<and>
      (case slides_store s of
         None \<Rightarrow> True
       | Some store \<Rightarrow> list_all (\<lambda>kr. \<not> js_is_object (rec_signature (snd kr))) store))"

text \<open>The records of the store, as \<^verbatim>\<open>store.getAll()\<close> returns them.\<close>

definition stored_slides :: "state \<Rightarrow> slide_record list" where
  "stored_slides s = (case slides_store s of None \<Rightarrow> [] | Some store \<Rightarrow> getAll store)"

text \<open>
  Signature uniqueness: no two entries of the gallery and no two persisted records
  share a signature, and the signature set holds the signature of every entry.
\<close>

definition unique_signatures :: "state \<Rightarrow> bool" where
  "unique_signatures s =
     (distinct (map entry_signature (imageEntries s)) \<and>
      distinct (map rec_signature (stored_slides s)) \<and>
      set (map entry_signature (imageEntries s)) \<subseteq> imageSignatures s)"

text \<open>
  The same, for the gallery only of the signatures that the signature set compares by
  value: strings, numbers and booleans.
\<close>

definition unique_plain_signatures :: "state \<Rightarrow> bool" where
  "unique_plain_signatures s =
     (distinct (plain_signatures s) \<and>
      distinct (map rec_signature (stored_slides s)) \<and>
      set (map entry_signature (imageEntries s)) \<subseteq> imageSignatures s)"

text \<open>
  A record whose \<^verbatim>\<open>addedAt\<close> the comparator of \<^verbatim>\<open>getPersistedSlides\<close> reads as a number
  without converting a text, and that number, \<^verbatim>\<open>a.addedAt || 0\<close>.
\<close>

definition timed_record :: "slide_record \<Rightarrow> bool" where
  "timed_record r = json_numeric (rec_addedAt r)"

definition addedAt_number :: "slide_record \<Rightarrow> jsnum" where
  "addedAt_number r = js_ToNumber (js_or (rec_addedAt r) (JNumber (Finite 0)))"


text \<open>
  A record that passes through a package unchanged: nothing in it is replaced by a
  default on import or written as \<^verbatim>\<open>null\<close> on export, and its type is what a Blob keeps.
\<close>

definition record_portable :: "slide_record \<Rightarrow> bool" where
  "record_portable r =
     (js_truthy (rec_signature r) \<and> json_finite (rec_signature r) \<and>
      js_truthy (rec_label r) \<and> json_finite (rec_label r) \<and>
      rec_type r \<noteq> [] \<and> Blob_type (rec_type r) = rec_type r \<and>
      js_truthy (rec_addedAt r) \<and> json_numeric (rec_addedAt r) \<and> json_finite (rec_addedAt r))"



text \<open>
  A slide entry that the import loop passes over: it is not an object, has no string
  \<^verbatim>\<open>bytes\<close>, or its bytes do not decode.
\<close>

definition slide_corrupt :: "package_slide option \<Rightarrow> bool" where
  "slide_corrupt slide =
     (case slide of
        None \<Rightarrow> True
      | Some sl \<Rightarrow>
          (case slide_bytes sl of
             None \<Rightarrow> True
           | Some base64 \<Rightarrow> base64ToArrayBuffer base64 = None))"

text \<open>
  A slide entry whose signature the signature set of state \<open>s\<close> is found to hold (and
  whose type the Blob constructor accepts).
\<close>

definition slide_duplicate :: "state \<Rightarrow> package_slide option \<Rightarrow> bool" where
  "slide_duplicate s slide =
     (case slide of
        None \<Rightarrow> False
      | Some sl \<Rightarrow>
          slide_type sl \<noteq> Type_no_string \<and>
          (case slide_signature sl of
             None \<Rightarrow> False
           | Some g \<Rightarrow> js_truthy g \<and> Set_has (imageSignatures s) g))"

text \<open>
  A decodable slide entry with a signature of its own that is a valid key, and what the
  import registers and stores for it.
\<close>

definition slide_decodable :: "package_slide option \<Rightarrow> bool" where
  "slide_decodable slide =
     (case slide of
        None \<Rightarrow> False
      | Some sl \<Rightarrow>
          (case slide_bytes sl of
             None \<Rightarrow> False
           | Some base64 \<Rightarrow>
               base64ToArrayBuffer base64 \<noteq> None \<and> slide_type sl \<noteq> Type_no_string \<and>
               (case slide_signature sl of
                  None \<Rightarrow> False
                | Some g \<Rightarrow> js_truthy g \<and> to_key g \<noteq> None)))"

definition slide_sig :: "package_slide option \<Rightarrow> json" where
  "slide_sig slide =
     (case slide of
        None \<Rightarrow> JNull
      | Some sl \<Rightarrow> (case slide_signature sl of None \<Rightarrow> JNull | Some g \<Rightarrow> g))"

definition slide_payload :: "package_slide option \<Rightarrow> byte list" where
  "slide_payload slide =
     (case slide of
        None \<Rightarrow> []
      | Some sl \<Rightarrow>
          (case slide_bytes sl of
             None \<Rightarrow> []
           | Some base64 \<Rightarrow>
               (case base64ToArrayBuffer base64 of None \<Rightarrow> [] | Some buffer \<Rightarrow> buffer)))"

text \<open>The properties of a slide entry (none for an entry that is not an object).\<close>

definition slide_object :: "package_slide option \<Rightarrow> package_slide" where
  "slide_object slide =
     (case slide of
        None \<Rightarrow> \<lparr>slide_signature = None, slide_label = None, slide_type = Type_falsy,
                  slide_addedAt = None, slide_bytes = None\<rparr>
      | Some sl \<Rightarrow> sl)"

text \<open>The type that the Blob constructor is given for a slide entry, where it accepts it.\<close>

definition type_text :: "type_field \<Rightarrow> string" where
  "type_text t = (case type_argument t of None \<Rightarrow> [] | Some x \<Rightarrow> x)"

definition imported_entry :: "package_slide option \<Rightarrow> entry" where
  "imported_entry slide =
     \<lparr>entry_url = new_Blob (slide_payload slide) (type_text (slide_type (slide_object slide))),
      entry_signature = slide_sig slide,
      entry_label = field_or (slide_label (slide_object slide)) (JString ''Image'')\<rparr>"

definition imported_record :: "int \<Rightarrow> package_slide option \<Rightarrow> slide_record" where
  "imported_record now slide =
     \<lparr>rec_signature = slide_sig slide,
      rec_label = field_or (slide_label (slide_object slide)) (JString ''Image''),
      rec_addedAt = field_or (slide_addedAt (slide_object slide)) (js_int now),
      rec_bytes = slide_payload slide,
      rec_type = str_or (Blob_type (type_text (slide_type (slide_object slide))))
                   ''application/octet-stream''\<rparr>"

text \<open>The records of the decodable entries of a list, the first entry being at position \<open>i\<close>.\<close>

fun imported_records :: "(nat \<Rightarrow> int) \<Rightarrow> nat \<Rightarrow> package_slide option list \<Rightarrow> slide_record list" where
  "imported_records now i [] = []"
| "imported_records now i (slide # rest) =
     (if slide_decodable slide then [imported_record (now i) slide] else []) @
     imported_records now (Suc i) rest"




text \<open>
  Every record of the store has the property \<open>R\<close>; and every record that the script
  can store for a file of a batch has it.
\<close>

definition store_all :: "(slide_record \<Rightarrow> bool) \<Rightarrow> state \<Rightarrow> bool" where
  "store_all R s =
     (case slides_store s of None \<Rightarrow> True | Some store \<Rightarrow> list_all (\<lambda>kr. R (snd kr)) store)"


text \<open>\<^verbatim>\<open>store.put(record)\<close> on the records of a store.\<close>

definition put_record :: "slide_record \<Rightarrow> (idb_key \<times> slide_record) list \<Rightarrow> (idb_key \<times> slide_record) list" where
  "put_record r store =
     (case to_key (rec_signature r) of None \<Rightarrow> store | Some k \<Rightarrow> AList.update k r store)"


text \<open>\<^verbatim>\<open>store.get(signature)\<close> on the records of a store.\<close>

definition store_get :: "(idb_key \<times> slide_record) list \<Rightarrow> json \<Rightarrow> slide_record option" where
  "store_get store g = (case to_key g of None \<Rightarrow> None | Some k \<Rightarrow> map_of store k)"


text \<open>
  A package document whose top-level shape does not match: the text is not JSON, the
  value is not an object, or \<^verbatim>\<open>slides\<close> is not an array.
\<close>

definition shape_mismatch :: "json_doc option \<Rightarrow> bool" where
  "shape_mismatch parsed =
     (case parsed of
        None \<Rightarrow> True
      | Some Not_an_object \<Rightarrow> True
      | Some (Json_object data) \<Rightarrow> data_slides data = None)"

text \<open>A package document whose version field differs from the number \<open>1\<close>.\<close>

definition version_differs :: "json_doc option \<Rightarrow> bool" where
  "version_differs parsed =
     (case parsed of
        Some (Json_object data) \<Rightarrow> data_version data \<noteq> J_number (Finite 1)
      | _ \<Rightarrow> False)"

text \<open>A package document whose version field does not convert to the number \<open>1\<close>.\<close>

definition version_mismatch :: "json_doc option \<Rightarrow> bool" where
  "version_mismatch parsed =
     (case parsed of
        Some (Json_object data) \<Rightarrow> js_Number (data_version data) \<noteq> Finite 1
      | _ \<Rightarrow> False)"


section \<open>Examples\<close>

text \<open>A first visit with a working, empty store and \<^verbatim>\<open>localStorage\<close>.\<close>

definition first_state :: state where
  "first_state =
     \<lparr>imageEntries = [], imageSignatures = {}, slides_store = Some [],
      delayRange_value = Finite 200, delayInput_value = Finite 200,
      localStorage_delay = Some None\<rparr>"

text \<open>
  Two files that differ in name, type and content and have the same size and
  last-modified time.
\<close>

definition shot_a :: jsfile where
  "shot_a = \<lparr>file_name = ''shot::image/png'', file_type = ''image/png'',
              file_lastModified = 7, file_bytes = [1]\<rparr>"

definition shot_b :: jsfile where
  "shot_b = \<lparr>file_name = ''shot'', file_type = ''image/png::image/png'',
              file_lastModified = 7, file_bytes = [2]\<rparr>"

text \<open>An image file as a browser hands it over.\<close>

definition photo :: jsfile where
  "photo = \<lparr>file_name = ''cat.png'', file_type = ''image/png'', file_lastModified = 1700000000000,
             file_bytes = [137, 80, 78, 71]\<rparr>"

text \<open>
  Surroundings in which PDF.js is missing, no file parses as JSON, and the clock
  stands at one instant.
\<close>

definition sample_env :: env where
  "sample_env =
     \<lparr>pdfSupported = False, pdf_getDocument = (\<lambda>bytes. None),
      JSON_parse_text = (\<lambda>bytes. None), Date_now = (\<lambda>j i. 1700000000123),
      random_id = (\<lambda>j i. ''0000'')\<rparr>"

text \<open>
  Two different documents with the same name, type, size and last-modified time, and
  surroundings in which PDF.js reads each as one page.
\<close>

definition talk_a :: jsfile where
  "talk_a = \<lparr>file_name = ''talk.pdf'', file_type = ''application/pdf'',
              file_lastModified = 7, file_bytes = [1, 2]\<rparr>"

definition talk_b :: jsfile where
  "talk_b = \<lparr>file_name = ''talk.pdf'', file_type = ''application/pdf'',
              file_lastModified = 7, file_bytes = [3, 4]\<rparr>"

definition pdf_env :: env where
  "pdf_env =
     \<lparr>pdfSupported = True,
      pdf_getDocument = (\<lambda>bytes. if bytes = [1, 2] then Some [Page_image [10]]
                                  else if bytes = [3, 4] then Some [Page_image [20]]
                                  else None),
      JSON_parse_text = (\<lambda>bytes. None), Date_now = (\<lambda>j i. 1700000000123),
      random_id = (\<lambda>j i. ''0000'')\<rparr>"

text \<open>
  Slide entries of a package: one whose \<^verbatim>\<open>bytes\<close> decode (to the single byte \<open>65\<close>), with
  a given signature, and one whose \<^verbatim>\<open>bytes\<close> are not Base64.
\<close>

definition good_slide :: "string \<Rightarrow> package_slide option" where
  "good_slide g =
     Some \<lparr>slide_signature = Some (JString g), slide_label = Some (JString ''a.png''),
           slide_type = Type_string ''image/png'', slide_addedAt = Some (js_int 1700000000000),
           slide_bytes = Some ''QQ==''\<rparr>"

definition bad_object :: package_slide where
  "bad_object =
     \<lparr>slide_signature = Some (JString ''bad''), slide_label = Some (JString ''b.png''),
      slide_type = Type_string ''image/png'', slide_addedAt = Some (js_int 1700000000001),
      slide_bytes = Some ''!!!''\<rparr>"

definition bad_slide :: "package_slide option" where
  "bad_slide = Some bad_object"

text \<open>
  A package of another version; the package \<^verbatim>\<open>{"version": true, "delay": 5000, "slides": []}\<close>;
  and a version-1 package of corrupt entries.
\<close>

definition version2_package :: json_doc where
  "version2_package =
     Json_object \<lparr>data_version = J_number (Finite 2), data_delay = Some (Finite 500),
                  data_slides = Some [good_slide ''s1'']\<rparr>"

definition version_true_package :: json_doc where
  "version_true_package =
     Json_object \<lparr>data_version = J_bool True, data_delay = Some (Finite 5000),
                  data_slides = Some []\<rparr>"

definition corrupt_package :: package_data where
  "corrupt_package =
     \<lparr>data_version = J_number (Finite 1), data_delay = Some (Finite 5000),
      data_slides = Some [None, bad_slide]\<rparr>"

definition six_slides :: package_data where
  "six_slides =
     \<lparr>data_version = J_number (Finite 1), data_delay = None,
      data_slides = Some ([good_slide ''s1'', good_slide ''s2''] @ bad_slide #
                          [good_slide ''s3'', good_slide ''s4'', good_slide ''s5''])\<rparr>"

definition fixed_clock :: "nat \<Rightarrow> int" where
  "fixed_clock i = 1700000000123"

definition fixed_random :: "nat \<Rightarrow> string" where
  "fixed_random i = ''0000''"

text \<open>
  The start of a session with three records in the store, whose order by key is not
  their order by \<^verbatim>\<open>addedAt\<close>.
\<close>

definition stored_record :: "string \<Rightarrow> int \<Rightarrow> slide_record" where
  "stored_record g t =
     \<lparr>rec_signature = JString g, rec_label = JString ''a.png'', rec_addedAt = js_int t,
      rec_bytes = [65], rec_type = ''image/png''\<rparr>"


text \<open>
  A package file, and surroundings in which its text is
  \<^verbatim>\<open>{"version": 1, "slides": [{"signature": ["a"], "bytes": "QQ=="},
    {"signature": ["a"], "bytes": "QQ=="}]}\<close>.
\<close>

definition package_file :: jsfile where
  "package_file = \<lparr>file_name = ''show.json'', file_type = ''application/json'',
                    file_lastModified = 7, file_bytes = [123, 125]\<rparr>"

definition twin_slide :: "package_slide option" where
  "twin_slide =
     Some \<lparr>slide_signature = Some (JArray [JString ''a'']), slide_label = None,
           slide_type = Type_falsy, slide_addedAt = None, slide_bytes = Some ''QQ==''\<rparr>"

definition twin_package :: json_doc where
  "twin_package =
     Json_object \<lparr>data_version = J_number (Finite 1), data_delay = None,
                  data_slides = Some [twin_slide, twin_slide]\<rparr>"

definition twin_env :: env where
  "twin_env =
     \<lparr>pdfSupported = False, pdf_getDocument = (\<lambda>bytes. None),
      JSON_parse_text = (\<lambda>bytes. Some twin_package), Date_now = (\<lambda>j i. 1700000000123),
      random_id = (\<lambda>j i. ''0000'')\<rparr>"




section \<open>Properties of the values\<close>




lemma js_int_numeric [simp]: "json_numeric (js_int i)" "json_finite (js_int i)"
  by (simp_all add: js_int_def)


lemma those_Cons:
  "those (x # xs) = Some ks \<longleftrightarrow> (\<exists>k rest. x = Some k \<and> those xs = Some rest \<and> ks = k # rest)"
  by (cases x) (auto split: option.splits)

lemma those_map_inj:
  "(\<And>x y k. x \<in> set xs \<Longrightarrow> f x = Some k \<Longrightarrow> f y = Some k \<Longrightarrow> x = y) \<Longrightarrow>
   those (map f xs) = Some ks \<Longrightarrow> those (map f ys) = Some ks \<Longrightarrow> xs = ys"
proof (induction xs arbitrary: ys ks)
  case Nil
  then show ?case by (cases ys) (auto simp del: those.simps(2) simp: those_Cons)
next
  case (Cons x xs)
  from Cons.prems(2) obtain k rest
    where k: "f x = Some k" "those (map f xs) = Some rest" "ks = k # rest"
    by (auto simp del: those.simps(2) simp: those_Cons)
  from Cons.prems(3) k(3) obtain y ys'
    where y: "ys = y # ys'" "f y = Some k" "those (map f ys') = Some rest"
    by (cases ys) (auto simp del: those.simps(2) simp: those_Cons)
  have "x = y" using Cons.prems(1) [of x k y] k(1) y(2) by simp
  moreover have "xs = ys'"
  proof (rule Cons.IH [OF _ k(2) y(3)])
    fix a b c assume "a \<in> set xs" "f a = Some c" "f b = Some c"
    then show "a = b" using Cons.prems(1) [of a c b] by simp
  qed
  ultimately show ?case using y(1) by simp
qed

text \<open>Two values with the same key are the same value.\<close>

lemma to_key_inj: "to_key a = Some k \<Longrightarrow> to_key b = Some k \<Longrightarrow> a = b"
proof (induction a arbitrary: b k)
  case (JArray xs)
  from JArray.prems(1) obtain ks where ks: "those (map to_key xs) = Some ks" "k = Key_array ks"
    by auto
  from JArray.prems(2) ks(2) obtain ys where ys: "b = JArray ys" "those (map to_key ys) = Some ks"
    by (cases b) (auto split: if_splits)
  have "xs = ys"
    using JArray.IH ks(1) ys(2) by (rule those_map_inj)
  with ys(1) show ?case by simp
next
  case JNull then show ?case by simp
next
  case (JBool x) then show ?case by simp
next
  case (JNumber n) then show ?case by (cases b) (auto split: if_splits)
next
  case (JString x) then show ?case by (cases b) (auto split: if_splits)
next
  case (JObject ps) then show ?case by simp
qed

subsection \<open>Sorting with a comparator\<close>

lemma positive_minus: "a \<noteq> NaN \<Longrightarrow> b \<noteq> NaN \<Longrightarrow> js_positive (js_minus a b) = (b < a)"
  by (cases a; cases b) (auto simp: less_jsnum_def)

lemma insert_sorted_insort:
  "f x \<noteq> NaN \<Longrightarrow> \<forall>y \<in> set ys. f y \<noteq> NaN \<Longrightarrow>
   insert_sorted (\<lambda>a b. js_minus (f a) (f b)) x ys = insort_key f x ys"
  by (induction ys) (auto simp: positive_minus)

lemma set_insert_sorted [simp]: "set (insert_sorted cmp x ys) = insert x (set ys)"
  by (induction ys) auto

lemma mset_insert_sorted [simp]: "mset (insert_sorted cmp x ys) = add_mset x (mset ys)"
  by (induction ys) auto

lemma mset_Array_sort [simp]: "mset (Array_sort cmp xs) = mset xs"
  by (induction xs) (simp_all add: Array_sort_def)

lemma set_Array_sort [simp]: "set (Array_sort cmp xs) = set xs"
  using mset_Array_sort [of cmp xs] by (metis set_mset_mset)

lemma length_Array_sort [simp]: "length (Array_sort cmp xs) = length xs"
  using mset_Array_sort [of cmp xs] by (metis size_mset)

text \<open>
  On values that are numbers the comparator \<open>f a - f b\<close> is consistent, and the sort is
  the stable sort by \<open>f\<close>.
\<close>

lemma Array_sort_sort_key:
  "\<forall>x \<in> set xs. f x \<noteq> NaN \<Longrightarrow> Array_sort (\<lambda>a b. js_minus (f a) (f b)) xs = sort_key f xs"
proof (induction xs)
  case Nil
  show ?case by (simp add: Array_sort_def)
next
  case (Cons x xs)
  then have IH: "Array_sort (\<lambda>a b. js_minus (f a) (f b)) xs = sort_key f xs" by simp
  have "\<forall>y \<in> set (sort_key f xs). f y \<noteq> NaN" using Cons.prems by simp
  with Cons.prems IH show ?case
    using insert_sorted_insort [of f x "sort_key f xs"]
    by (simp add: Array_sort_def sort_key_def)
qed

section \<open>Properties of the signature engine\<close>

declare nat_to_string.simps [simp del]

lemma of_char_digit_char: "d < 10 \<Longrightarrow> (of_char (digit_char d) :: nat) = 48 + d"
  by (simp add: digit_char_def)

lemma is_digit_digit_char: "d < 10 \<Longrightarrow> is_digit (digit_char d)"
  by (simp add: is_digit_def of_char_digit_char)

lemma nat_to_string_digits: "c \<in> set (nat_to_string n) \<Longrightarrow> is_digit c"
proof (induction n arbitrary: c rule: nat_to_string.induct)
  case (1 n)
  show ?case
  proof (cases "n < 10")
    case True
    with 1(2) show ?thesis by (simp add: nat_to_string.simps [of n] is_digit_digit_char)
  next
    case False
    have "n mod 10 < 10" by simp
    with False 1 show ?thesis
      by (auto simp: nat_to_string.simps [of n] is_digit_digit_char)
  qed
qed

lemma digits_value_append:
  "digits_value acc (xs @ ys) = digits_value (digits_value acc xs) ys"
  by (induction xs arbitrary: acc) simp_all

lemma digits_value_nat_to_string: "digits_value 0 (nat_to_string n) = n"
proof (induction n rule: nat_to_string.induct)
  case (1 n)
  show ?case
  proof (cases "n < 10")
    case True
    then show ?thesis by (simp add: nat_to_string.simps [of n] of_char_digit_char)
  next
    case False
    have "n mod 10 < 10" by simp
    with False 1 show ?thesis
      by (simp add: nat_to_string.simps [of n] digits_value_append of_char_digit_char)
  qed
qed

lemma nat_to_string_inj: "nat_to_string m = nat_to_string n \<Longrightarrow> m = n"
  by (metis digits_value_nat_to_string)

lemma page_suffix_split:
  assumes "a @ ''::page'' @ nat_to_string m = b @ ''::page'' @ nat_to_string n"
  shows "a = b \<and> m = n"
proof -
  have e: "\<not> is_digit (CHR ''e'')" by (simp add: is_digit_def)
  have tw: "takeWhile is_digit (rev (x @ ''::page'' @ nat_to_string k)) = rev (nat_to_string k)"
    for x k
    using e by (simp add: takeWhile_append2 nat_to_string_digits takeWhile_tail)
  from assms have "rev (nat_to_string m) = rev (nat_to_string n)"
    using tw [of a m] tw [of b n] by simp
  then have mn: "m = n" by (simp add: nat_to_string_inj)
  with assms show ?thesis by simp
qed

lemma pageSignature_eq_iff:
  "pageSignature f p = pageSignature g q \<longleftrightarrow> fileSignature f = fileSignature g \<and> p = q"
  unfolding pageSignature_def using page_suffix_split by blast

lemma digit_char_simps:
  "digit_char 0 = CHR ''0''" "digit_char 1 = CHR ''1''" "digit_char 2 = CHR ''2''"
  "digit_char 3 = CHR ''3''" "digit_char 4 = CHR ''4''" "digit_char 5 = CHR ''5''"
  "digit_char 6 = CHR ''6''" "digit_char 7 = CHR ''7''" "digit_char 8 = CHR ''8''"
  "digit_char 9 = CHR ''9''"
  by (simp_all add: digit_char_def char_of_eq_iff)

lemma digit_char_Suc_simps:
  "digit_char (Suc 0) = CHR ''1''" "digit_char (Suc (Suc 0)) = CHR ''2''"
  "digit_char (Suc (Suc (Suc 0))) = CHR ''3''"
  "digit_char (Suc (Suc (Suc (Suc 0)))) = CHR ''4''"
  by (simp_all add: digit_char_def char_of_eq_iff)

lemma nat_to_string_digit: "n < 10 \<Longrightarrow> nat_to_string n = [digit_char n]"
  by (simp add: nat_to_string.simps)

lemmas show_small = nat_to_string_digit digit_char_simps digit_char_Suc_simps


lemma saveSlideRecord_gallery [simp]:
  "imageEntries (saveSlideRecord g l b a s) = imageEntries s"
  "imageSignatures (saveSlideRecord g l b a s) = imageSignatures s"
  "delayRange_value (saveSlideRecord g l b a s) = delayRange_value s"
  "delayInput_value (saveSlideRecord g l b a s) = delayInput_value s"
  "localStorage_delay (saveSlideRecord g l b a s) = localStorage_delay s"
  by (simp_all add: saveSlideRecord_def split: option.splits)

lemma Set_has_string [simp]: "Set_has S (JString x) = (JString x \<in> S)"
  by (simp add: Set_has_def)

lemma Set_has_member: "Set_has S g \<Longrightarrow> g \<in> S"
  by (simp add: Set_has_def)

lemma Set_has_plain: "\<not> js_is_object g \<Longrightarrow> Set_has S g = (g \<in> S)"
  by (simp add: Set_has_def)

lemma registerEntry_known:
  "Set_has (imageSignatures s) g \<Longrightarrow> registerEntry b l g p a s = (False, s)"
  by (simp add: registerEntry_def)

lemma registerEntry_new:
  "\<not> Set_has (imageSignatures s) g \<Longrightarrow>
   fst (registerEntry b l g p a s) \<and>
   imageEntries (snd (registerEntry b l g p a s)) =
     imageEntries s @ [\<lparr>entry_url = b, entry_signature = g, entry_label = l\<rparr>] \<and>
   imageSignatures (snd (registerEntry b l g p a s)) = insert g (imageSignatures s)"
  by (simp add: registerEntry_def Let_def)

lemma addImageFile_known:
  "JString (fileSignature f) \<in> imageSignatures s \<Longrightarrow> addImageFile now f s = (0, s)"
  by (simp add: addImageFile_def)

lemma addImageFile_registers:
  "JString (fileSignature f) \<in> imageSignatures (snd (addImageFile now f s))"
  by (simp add: addImageFile_def Let_def registerEntry_new)

lemma fileSignature_fields:
  assumes "file_name g = file_name f" "file_type g = file_type f"
    "file_size g = file_size f" "file_lastModified g = file_lastModified f"
  shows "fileSignature g = fileSignature f"
  using assms by (simp add: fileSignature_def)

section \<open>Deduplication of files\<close>

lemma shot_signatures:
  "fileSignature shot_a = ''shot::image/png::image/png::1::7''"
  "fileSignature shot_b = ''shot::image/png::image/png::1::7''"
  by (simp_all add: fileSignature_def shot_a_def shot_b_def file_size_def int_to_string_def
      show_small)

text \<open>
  Claim C9. The file signature is not injective: the four fields are joined with
  \<open>::\<close>, which may occur inside a field. The files \<open>shot_a\<close> and \<open>shot_b\<close> differ in
  name and in type and have the same signature; once the first is added, adding the
  second returns \<open>0\<close> and leaves the state as it is, whatever the state was before.
\<close>

theorem fileSignature_not_injective:
  "fileSignature shot_a = fileSignature shot_b \<and>
   file_name shot_a \<noteq> file_name shot_b \<and> file_type shot_a \<noteq> file_type shot_b \<and>
   \<not> inj fileSignature \<and>
   addImageFile now2 shot_b (snd (addImageFile now1 shot_a s)) =
     (0, snd (addImageFile now1 shot_a s))"
proof -
  have eq: "fileSignature shot_a = fileSignature shot_b"
    by (simp only: shot_signatures)
  have ne: "file_name shot_a \<noteq> file_name shot_b" "file_type shot_a \<noteq> file_type shot_b"
    by (simp_all add: shot_a_def shot_b_def)
  then have "shot_a \<noteq> shot_b" by auto
  with eq have ninj: "\<not> inj fileSignature" by (auto simp: inj_def)
  have "JString (fileSignature shot_b) \<in> imageSignatures (snd (addImageFile now1 shot_a s))"
    using addImageFile_registers [of shot_a now1 s] eq by simp
  then have "addImageFile now2 shot_b (snd (addImageFile now1 shot_a s)) =
     (0, snd (addImageFile now1 shot_a s))"
    by (rule addImageFile_known)
  with eq ne ninj show ?thesis by simp
qed

lemma addFiles_single: "addFiles e [f] s = addFiles_step e 0 f (no_files, s)"
  by (simp add: addFiles_def)

lemma isPackageCandidate_fields:
  "file_name g = file_name f \<Longrightarrow> file_type g = file_type f \<Longrightarrow>
   isPackageCandidate g = isPackageCandidate f"
  by (simp add: isPackageCandidate_def)

lemma addFiles_image:
  assumes "\<not> isPackageCandidate f" "startsWith (file_type f) ''image/''"
  shows "addFiles e [f] s =
     (no_files\<lparr>supported := 1, added := fst (addImageFile (Date_now e 0 0) f s)\<rparr>,
      snd (addImageFile (Date_now e 0 0) f s))"
  using assms by (simp add: addFiles_single addFiles_step_def Let_def no_files_def)

text \<open>
  Claim C8. A file with the same name, type, size and last-modified time as an image
  file already ingested adds nothing: \<^verbatim>\<open>addImageFile\<close> returns \<open>0\<close>, a batch holding it
  reports \<open>added = 0\<close>, and the gallery keeps its length.
\<close>

theorem same_image_twice:
  assumes "file_name g = file_name f" "file_type g = file_type f"
    "file_size g = file_size f" "file_lastModified g = file_lastModified f"
    and "\<not> isPackageCandidate f" "startsWith (file_type f) ''image/''"
  shows "fst (addImageFile now2 g (snd (addImageFile now1 f s))) = 0 \<and>
    length (imageEntries (snd (addImageFile now2 g (snd (addImageFile now1 f s))))) =
      length (imageEntries (snd (addImageFile now1 f s))) \<and>
    added (fst (addFiles e2 [g] (snd (addFiles e1 [f] s)))) = 0 \<and>
    length (imageEntries (snd (addFiles e2 [g] (snd (addFiles e1 [f] s))))) =
      length (imageEntries (snd (addFiles e1 [f] s)))"
proof -
  have sig: "fileSignature g = fileSignature f"
    using assms(1-4) by (rule fileSignature_fields)
  have known: "JString (fileSignature g) \<in> imageSignatures (snd (addImageFile now f s))" for now
    using addImageFile_registers [of f now s] sig by simp
  have second: "addImageFile now' g (snd (addImageFile now f s)) = (0, snd (addImageFile now f s))"
    for now now'
    using known by (rule addImageFile_known)
  have g: "\<not> isPackageCandidate g" "startsWith (file_type g) ''image/''"
    using assms isPackageCandidate_fields [of g f] by simp_all
  show ?thesis
    by (simp add: second addFiles_image [OF assms(5,6)] addFiles_image [OF g] no_files_def)
qed

lemma photo_is_image: "\<not> isPackageCandidate photo" "startsWith (file_type photo) ''image/''"
  by (simp_all add: isPackageCandidate_def photo_def endsWith_def startsWith_def toLowerCase_def Let_def)

theorem same_image_twice_witness:
  "fst (addImageFile 2 photo (snd (addImageFile 1 photo first_state))) = 0 \<and>
   length (imageEntries (snd (addImageFile 2 photo (snd (addImageFile 1 photo first_state))))) =
     length (imageEntries (snd (addImageFile 1 photo first_state))) \<and>
   added (fst (addFiles sample_env [photo] (snd (addFiles sample_env [photo] first_state)))) = 0 \<and>
   length (imageEntries
      (snd (addFiles sample_env [photo] (snd (addFiles sample_env [photo] first_state))))) =
     length (imageEntries (snd (addFiles sample_env [photo] first_state)))"
  by (rule same_image_twice [OF refl refl refl refl photo_is_image])

section \<open>Pages of documents\<close>

lemma talk_signatures:
  "fileSignature talk_a = ''talk.pdf::application/pdf::2::7''"
  "fileSignature talk_b = ''talk.pdf::application/pdf::2::7''"
  by (simp_all add: fileSignature_def talk_a_def talk_b_def file_size_def int_to_string_def
      show_small)

lemma talk_page_signatures:
  "pageSignature talk_a (Suc 0) = ''talk.pdf::application/pdf::2::7::page1''"
  "pageSignature talk_b (Suc 0) = ''talk.pdf::application/pdf::2::7::page1''"
  by (simp_all add: pageSignature_def talk_signatures show_small)

lemma talk_fields:
  "file_name talk_a = ''talk.pdf''" "file_bytes talk_a = [1, 2]"
  "file_name talk_b = ''talk.pdf''" "file_bytes talk_b = [3, 4]"
  by (simp_all add: talk_a_def talk_b_def)

lemma talk_a_added:
  "addPdfFile pdf_env (Date_now pdf_env 0) talk_a first_state =
     (Some \<lparr>pdf_added = 1, pdf_total = 1\<rparr>,
      first_state\<lparr>imageEntries :=
          [\<lparr>entry_url = \<lparr>blob_bytes = [10], blob_type = ''image/png''\<rparr>,
            entry_signature = JString ''talk.pdf::application/pdf::2::7::page1'',
            entry_label = JString ''talk.pdf - page 1''\<rparr>],
        imageSignatures := {JString ''talk.pdf::application/pdf::2::7::page1''},
        slides_store := Some [(Key_string ''talk.pdf::application/pdf::2::7::page1'',
           \<lparr>rec_signature = JString ''talk.pdf::application/pdf::2::7::page1'',
            rec_label = JString ''talk.pdf - page 1'', rec_addedAt = js_int 1700000000123,
            rec_bytes = [10], rec_type = ''image/png''\<rparr>)]\<rparr>)"
  by (simp add: addPdfFile_def pdf_env_def Let_def talk_page_signatures first_state_def
      registerEntry_def saveSlideRecord_def str_or_def show_small talk_fields)

text \<open>
  Claim C1, as stated, fails: \<open>talk_a\<close> and \<open>talk_b\<close> are different documents with the
  same name, type, size and last-modified time; their first pages get the same
  signature, and after \<open>talk_a\<close> is ingested the page of \<open>talk_b\<close> is skipped as a
  duplicate (\<open>added = 0\<close> of \<open>total = 1\<close>, state unchanged).
\<close>

theorem page_collision_across_documents:
  "talk_a \<noteq> talk_b \<and>
   file_name talk_a = file_name talk_b \<and> file_type talk_a = file_type talk_b \<and>
   file_size talk_a = file_size talk_b \<and> file_lastModified talk_a = file_lastModified talk_b \<and>
   pageSignature talk_a 1 = pageSignature talk_b 1 \<and>
   fst (addPdfFile pdf_env (Date_now pdf_env 0) talk_a first_state) =
     Some \<lparr>pdf_added = 1, pdf_total = 1\<rparr> \<and>
   addPdfFile pdf_env (Date_now pdf_env 1) talk_b
       (snd (addPdfFile pdf_env (Date_now pdf_env 0) talk_a first_state)) =
     (Some \<lparr>pdf_added = 0, pdf_total = 1\<rparr>,
      snd (addPdfFile pdf_env (Date_now pdf_env 0) talk_a first_state))"
proof -
  have ne: "talk_a \<noteq> talk_b"
  proof
    assume "talk_a = talk_b"
    then have "file_bytes talk_a = file_bytes talk_b" by simp
    then show False by (simp add: talk_a_def talk_b_def)
  qed
  have fields: "file_name talk_a = file_name talk_b" "file_type talk_a = file_type talk_b"
    "file_size talk_a = file_size talk_b" "file_lastModified talk_a = file_lastModified talk_b"
    by (simp_all add: talk_a_def talk_b_def file_size_def)
  have b: "addPdfFile pdf_env (Date_now pdf_env 1) talk_b
       (snd (addPdfFile pdf_env (Date_now pdf_env 0) talk_a first_state)) =
     (Some \<lparr>pdf_added = 0, pdf_total = 1\<rparr>,
      snd (addPdfFile pdf_env (Date_now pdf_env 0) talk_a first_state))"
    unfolding talk_a_added
    by (simp add: addPdfFile_def pdf_env_def Let_def talk_page_signatures talk_fields)
  show ?thesis
    using ne fields b by (simp add: talk_page_signatures talk_a_added)
qed

lemma pdf_pages_known:
  "\<forall>n. start \<le> n \<and> n < start + length pages \<longrightarrow>
       JString (pageSignature g n) \<in> imageSignatures (snd acc) \<Longrightarrow>
   pdf_pages now g pages start acc = acc"
proof (induction pages arbitrary: start)
  case Nil
  show ?case by simp
next
  case (Cons page pages)
  have here: "JString (pageSignature g start) \<in> imageSignatures (snd acc)"
    using Cons.prems by simp
  have rest: "\<forall>n. start + 1 \<le> n \<and> n < start + 1 + length pages \<longrightarrow>
      JString (pageSignature g n) \<in> imageSignatures (snd acc)"
    using Cons.prems by simp
  show ?case
    using here Cons.IH [OF rest] by simp
qed

text \<open>
  Claim C1, amended. Page signatures are injective in the pair of the document's file
  signature and the page number: a page of one document and a page of another have the
  same signature exactly when the two documents have the same file signature and the two
  pages the same number. A page whose signature is in the signature set is passed over as
  a duplicate: the loop goes on with the state as it is; a page that renders and whose
  signature is not in the set is registered under its signature and counted; and a
  document all of whose page signatures are in the set adds none of its pages and leaves
  the state as it is.
\<close>

theorem page_signature_collision_iff:
  "(pageSignature f p = pageSignature g q \<longleftrightarrow> fileSignature f = fileSignature g \<and> p = q) \<and>
   (JString (pageSignature g n) \<in> imageSignatures (snd acc) \<longrightarrow>
    pdf_pages now g (page # rest) n acc = pdf_pages now g rest (n + 1) acc) \<and>
   (JString (pageSignature g n) \<notin> imageSignatures (snd acc) \<longrightarrow>
    (\<exists>s1. pdf_pages now g (Page_image png # rest) n acc =
            pdf_pages now g rest (n + 1) (fst acc + 1, s1) \<and>
          entry_signature (last (imageEntries s1)) = JString (pageSignature g n) \<and>
          length (imageEntries s1) = length (imageEntries (snd acc)) + 1 \<and>
          imageSignatures s1 = insert (JString (pageSignature g n)) (imageSignatures (snd acc)))) \<and>
   (pdfSupported e \<and> pdf_getDocument e (file_bytes g) = Some pages \<and>
    (\<forall>k \<in> {1..length pages}. JString (pageSignature g k) \<in> imageSignatures s) \<longrightarrow>
    addPdfFile e now g s = (Some \<lparr>pdf_added = 0, pdf_total = length pages\<rparr>, s))"
proof -
  have skip: "pdf_pages now g (page # rest) n acc = pdf_pages now g rest (n + 1) acc"
    if "JString (pageSignature g n) \<in> imageSignatures (snd acc)"
    using that by simp
  have add: "\<exists>s1. pdf_pages now g (Page_image png # rest) n acc =
            pdf_pages now g rest (n + 1) (fst acc + 1, s1) \<and>
          entry_signature (last (imageEntries s1)) = JString (pageSignature g n) \<and>
          length (imageEntries s1) = length (imageEntries (snd acc)) + 1 \<and>
          imageSignatures s1 = insert (JString (pageSignature g n)) (imageSignatures (snd acc))"
    if new: "JString (pageSignature g n) \<notin> imageSignatures (snd acc)"
  proof -
    let ?reg = "registerEntry \<lparr>blob_bytes = png, blob_type = ''image/png''\<rparr>
        (JString (str_or (file_name g) ''PDF'' @ '' - page '' @ nat_to_string n))
        (JString (pageSignature g n)) True (js_int (now n)) (snd acc)"
    from new have fresh: "\<not> Set_has (imageSignatures (snd acc)) (JString (pageSignature g n))"
      by simp
    note reg = registerEntry_new [OF fresh, of "\<lparr>blob_bytes = png, blob_type = ''image/png''\<rparr>"
        "JString (str_or (file_name g) ''PDF'' @ '' - page '' @ nat_to_string n)" True
        "js_int (now n)"]
    have "pdf_pages now g (Page_image png # rest) n acc =
        pdf_pages now g rest (n + 1) (fst acc + 1, snd ?reg)"
      using new reg by (simp add: Let_def)
    with reg show ?thesis by (intro exI [of _ "snd ?reg"]) simp
  qed
  have whole: "addPdfFile e now g s = (Some \<lparr>pdf_added = 0, pdf_total = length pages\<rparr>, s)"
    if "pdfSupported e" "pdf_getDocument e (file_bytes g) = Some pages"
      "\<forall>k \<in> {1..length pages}. JString (pageSignature g k) \<in> imageSignatures s"
  proof -
    have "\<forall>n. 1 \<le> n \<and> n < 1 + length pages \<longrightarrow>
        JString (pageSignature g n) \<in> imageSignatures (snd (0::nat, s))"
      using that(3) by simp
    then have "pdf_pages now g pages 1 (0, s) = (0, s)" by (rule pdf_pages_known)
    with that(1,2) show ?thesis by (simp add: addPdfFile_def)
  qed
  show ?thesis
    using pageSignature_eq_iff [of f p g q] skip add whole by blast
qed

text \<open>
  The second of two documents with the same file signature, after the first: its page
  is passed over; and after a first document whose page did not render, it is added.
\<close>

theorem page_signature_collision_iff_witness:
  "pageSignature talk_a 1 = pageSignature talk_b 1 \<and>
   pdfSupported pdf_env \<and>
   pdf_getDocument pdf_env (file_bytes talk_b) = Some [Page_image [20]] \<and>
   JString (pageSignature talk_b 1) \<in>
     imageSignatures (snd (addPdfFile pdf_env (Date_now pdf_env 0) talk_a first_state)) \<and>
   addPdfFile pdf_env (Date_now pdf_env 1) talk_b
       (snd (addPdfFile pdf_env (Date_now pdf_env 0) talk_a first_state)) =
     (Some \<lparr>pdf_added = 0, pdf_total = 1\<rparr>,
      snd (addPdfFile pdf_env (Date_now pdf_env 0) talk_a first_state)) \<and>
   JString (pageSignature talk_b 1) \<notin> imageSignatures first_state \<and>
   fst (pdf_pages (Date_now pdf_env 1) talk_b [Page_image [20]] 1
          (pdf_pages (Date_now pdf_env 0) talk_a [Page_render_fails] 1 (0, first_state))) = 1"
proof -
  let ?s = "snd (addPdfFile pdf_env (Date_now pdf_env 0) talk_a first_state)"
  have sigs: "pageSignature talk_a 1 = pageSignature talk_b 1"
    by (simp add: talk_page_signatures)
  have env: "pdfSupported pdf_env"
    "pdf_getDocument pdf_env (file_bytes talk_b) = Some [Page_image [20]]"
    by (simp_all add: pdf_env_def talk_fields)
  have known: "JString (pageSignature talk_b 1) \<in> imageSignatures ?s"
    by (simp add: talk_a_added talk_page_signatures)
  then have all: "\<forall>k \<in> {1..length [Page_image [20]]}.
      JString (pageSignature talk_b k) \<in> imageSignatures ?s"
    by simp
  have second: "addPdfFile pdf_env (Date_now pdf_env 1) talk_b ?s =
      (Some \<lparr>pdf_added = 0, pdf_total = 1\<rparr>, ?s)"
    using page_signature_collision_iff [of talk_a 1 talk_b 1 1 "(0, ?s)" "Date_now pdf_env 1"
        "Page_image [20]" "[]" "[20]" pdf_env "[Page_image [20]]" ?s] env all
    by simp
  have new: "JString (pageSignature talk_b 1) \<notin> imageSignatures first_state"
    by (simp add: first_state_def)
  have failed: "pdf_pages (Date_now pdf_env 0) talk_a [Page_render_fails] 1 (0, first_state) =
      (0, first_state)"
    by (simp add: first_state_def)
  have "fst (pdf_pages (Date_now pdf_env 1) talk_b [Page_image [20]] 1 (0, first_state)) = 1"
    using page_signature_collision_iff [of talk_a 1 talk_b 1 1 "(0, first_state)"
        "Date_now pdf_env 1" "Page_image [20]" "[]" "[20]" pdf_env "[Page_image [20]]" ?s] new
    by auto
  with sigs env known second new failed show ?thesis by simp
qed

section \<open>PDF.js missing\<close>

lemma pdf_type_not_image: "\<not> startsWith ''application/pdf'' ''image/''"
  by (simp add: startsWith_def)

lemma addPdfFile_unsupported:
  "\<not> pdfSupported e \<Longrightarrow> addPdfFile e now f s = (Some \<lparr>pdf_added = 0, pdf_total = 0\<rparr>, s)"
  by (simp add: addPdfFile_def)

lemma addFiles_step_pdf_unsupported:
  assumes "\<not> pdfSupported e" "isPdfFile f"
  shows "addFiles_step e j f (r, s) =
     (r\<lparr>supported := supported r + 1, pdfUnsupported := pdfUnsupported r + 1\<rparr>, s)"
  using assms by (simp add: addFiles_step_def isPdfFile_def Let_def pdf_type_not_image)

lemma addFiles_step_pdfUnsupported:
  assumes "\<not> pdfSupported e"
  shows "pdfUnsupported (fst (addFiles_step e j f acc)) =
     pdfUnsupported (fst acc) + (if isPdfFile f then 1 else 0)"
  using assms by (simp add: addFiles_step_def isPdfFile_def Let_def pdf_type_not_image)

lemma addFiles_loop_pdfUnsupported:
  assumes "\<not> pdfSupported e"
  shows "pdfUnsupported (fst (addFiles_loop e j files acc)) =
     pdfUnsupported (fst acc) + length (filter isPdfFile files)"
proof (induction files arbitrary: j acc)
  case Nil
  then show ?case by simp
next
  case (Cons f files)
  show ?case
    by (simp add: Cons.IH addFiles_step_pdfUnsupported [OF assms])
qed

lemma addFiles_step_getDocument:
  assumes "\<not> pdfSupported e"
  shows "addFiles_step (e\<lparr>pdf_getDocument := d\<rparr>) j f acc = addFiles_step e j f acc"
  using assms by (simp add: addFiles_step_def Let_def)

lemma addFiles_loop_getDocument:
  assumes "\<not> pdfSupported e"
  shows "addFiles_loop (e\<lparr>pdf_getDocument := d\<rparr>) j files acc = addFiles_loop e j files acc"
  by (induction files arbitrary: j acc) (simp_all add: addFiles_step_getDocument [OF assms])

lemma addFiles_loop_all_pdf:
  assumes "\<not> pdfSupported e" "list_all isPdfFile files"
  shows "addFiles_loop e j files (r, s) =
     (r\<lparr>supported := supported r + length files,
        pdfUnsupported := pdfUnsupported r + length files\<rparr>, s)"
  using assms(2)
proof (induction files arbitrary: j r)
  case Nil
  then show ?case by simp
next
  case (Cons f files)
  then show ?case
    by (simp add: addFiles_step_pdf_unsupported [OF assms(1)])
qed

text \<open>
  Claim C2. Without PDF.js, \<^verbatim>\<open>addPdfFile\<close> reports zero pages added and zero in total
  and leaves the state as it is; a batch counts each of its PDF files in
  \<open>pdfUnsupported\<close>; the outcome of the batch does not depend on what PDF.js would make
  of any file (no document is opened); and a batch of PDF files only changes nothing in
  the state. (The files counted are those that reach the PDF branch of \<^verbatim>\<open>addFiles\<close>;
  they are also counted in \<open>supported\<close>, and not in the counter \<open>unsupported\<close>.)
\<close>

theorem pdf_unsupported_not_attempted:
  assumes "\<not> pdfSupported e"
  shows "addPdfFile e now f s = (Some \<lparr>pdf_added = 0, pdf_total = 0\<rparr>, s) \<and>
    pdfUnsupported (fst (addFiles e files s)) = length (filter isPdfFile files) \<and>
    addFiles (e\<lparr>pdf_getDocument := d\<rparr>) files s = addFiles e files s \<and>
    addFiles e (filter isPdfFile files) s =
      (no_files\<lparr>supported := length (filter isPdfFile files),
         pdfUnsupported := length (filter isPdfFile files)\<rparr>, s)"
proof -
  have all: "list_all isPdfFile (filter isPdfFile files)"
    by (simp add: list_all_iff)
  have "addFiles e (filter isPdfFile files) s =
      (no_files\<lparr>supported := length (filter isPdfFile files),
         pdfUnsupported := length (filter isPdfFile files)\<rparr>, s)"
    using addFiles_loop_all_pdf [OF assms all, of 0 no_files s]
    by (simp add: addFiles_def no_files_def)
  moreover have "pdfUnsupported (fst (addFiles e files s)) = length (filter isPdfFile files)"
    using addFiles_loop_pdfUnsupported [OF assms, of 0 files "(no_files, s)"]
    by (simp add: addFiles_def no_files_def)
  moreover have "addFiles (e\<lparr>pdf_getDocument := d\<rparr>) files s = addFiles e files s"
    by (simp add: addFiles_def addFiles_loop_getDocument [OF assms])
  ultimately show ?thesis
    by (simp add: addPdfFile_unsupported [OF assms])
qed

lemma sample_batch_pdfs: "filter isPdfFile [photo, talk_a, talk_b] = [talk_a, talk_b]"
  by (simp add: isPdfFile_def isPackageCandidate_def photo_def talk_a_def talk_b_def
      endsWith_def startsWith_def toLowerCase_def Let_def)

theorem pdf_unsupported_not_attempted_witness:
  "\<not> pdfSupported sample_env \<and>
   addPdfFile sample_env (Date_now sample_env 0) talk_a first_state =
     (Some \<lparr>pdf_added = 0, pdf_total = 0\<rparr>, first_state) \<and>
   pdfUnsupported (fst (addFiles sample_env [photo, talk_a, talk_b] first_state)) = 2 \<and>
   addFiles (sample_env\<lparr>pdf_getDocument := pdf_getDocument pdf_env\<rparr>) [photo, talk_a, talk_b]
       first_state =
     addFiles sample_env [photo, talk_a, talk_b] first_state \<and>
   addFiles sample_env [talk_a, talk_b] first_state =
     (no_files\<lparr>supported := 2, pdfUnsupported := 2\<rparr>, first_state)"
proof -
  have h: "\<not> pdfSupported sample_env" by (simp add: sample_env_def)
  show ?thesis
    using h pdf_unsupported_not_attempted [OF h, of "Date_now sample_env 0" talk_a first_state
        "[photo, talk_a, talk_b]" "pdf_getDocument pdf_env"]
    by (simp only: sample_batch_pdfs) simp
qed

section \<open>Properties of the Base64 codec\<close>

























section \<open>Importing a package\<close>

lemma applyDelay_gallery [simp]:
  "imageEntries (applyDelay v p s) = imageEntries s"
  "imageSignatures (applyDelay v p s) = imageSignatures s"
  "slides_store (applyDelay v p s) = slides_store s"
  by (simp_all add: applyDelay_def storeDelay_def Let_def split: option.splits)

lemma applyDelay_delay:
  "delayRange_value (applyDelay v p s) = clamp_delay v"
  "delayInput_value (applyDelay v p s) = clamp_delay v"
  "localStorage_delay (applyDelay v True s) =
     (case localStorage_delay s of None \<Rightarrow> None | Some item \<Rightarrow> Some (Some (clamp_delay v)))"
  by (simp_all add: applyDelay_def storeDelay_def Let_def split: option.splits)

lemma registerEntry_delay [simp]:
  "delayRange_value (snd (registerEntry b l g p a s)) = delayRange_value s"
  "delayInput_value (snd (registerEntry b l g p a s)) = delayInput_value s"
  "localStorage_delay (snd (registerEntry b l g p a s)) = localStorage_delay s"
  by (simp_all add: registerEntry_def Let_def)

lemma registerEntry_persist:
  "\<not> Set_has (imageSignatures s) g \<Longrightarrow>
   slides_store (snd (registerEntry b l g True a s)) =
     map_option (put_record \<lparr>rec_signature = g, rec_label = l, rec_addedAt = a,
        rec_bytes = blob_bytes b, rec_type = str_or (blob_type b) ''application/octet-stream''\<rparr>)
       (slides_store s)"
  by (simp add: registerEntry_def Let_def saveSlideRecord_def put_record_def split: option.splits)

lemma registerEntry_no_persist [simp]:
  "slides_store (snd (registerEntry b l g False a s)) = slides_store s"
  by (simp add: registerEntry_def Let_def)

lemma import_slide_corrupt:
  "slide_corrupt slide \<Longrightarrow> import_slide now random slide acc = Some acc"
  by (auto simp: slide_corrupt_def import_slide_def split: option.splits)

lemma type_argument_text: "t \<noteq> Type_no_string \<Longrightarrow> type_argument t = Some (type_text t)"
  by (cases t) (simp_all add: type_argument_def type_text_def)

lemma import_slide_duplicate:
  assumes "slide_duplicate (snd acc) slide"
  shows "import_slide now random slide acc = Some acc"
proof -
  from assms obtain sl g where f: "slide = Some sl" "slide_type sl \<noteq> Type_no_string"
    "slide_signature sl = Some g" "js_truthy g" "Set_has (imageSignatures (snd acc)) g"
    by (auto simp: slide_duplicate_def split: option.splits)
  have sig: "field_or (slide_signature sl) d = g" for d
    using f(3,4) by (simp add: field_or_def js_or_def)
  show ?thesis
    unfolding f(1)
    by (simp add: import_slide_def type_argument_text [OF f(2)] Let_def sig
        registerEntry_known [OF f(5)] split: option.splits)
qed

lemma import_slide_delay:
  assumes "import_slide now random slide acc = Some acc1"
  shows "delayRange_value (snd acc1) = delayRange_value (snd acc)"
    "delayInput_value (snd acc1) = delayInput_value (snd acc)"
    "localStorage_delay (snd acc1) = localStorage_delay (snd acc)"
  using assms by (auto simp: import_slide_def Let_def split: option.splits)

lemma import_slides_first: "fst (import_slides now random i slides acc) \<noteq> []"
  "hd (fst (import_slides now random i slides acc)) = acc"
  by (cases slides; simp add: Let_def split: option.splits)+

lemma import_slides_delay:
  "a \<in> set (fst (import_slides now random i slides acc)) \<Longrightarrow>
   delayRange_value (snd a) = delayRange_value (snd acc) \<and>
   delayInput_value (snd a) = delayInput_value (snd acc) \<and>
   localStorage_delay (snd a) = localStorage_delay (snd acc)"
proof (induction slides arbitrary: i acc)
  case Nil
  then show ?case by simp
next
  case (Cons x slides)
  show ?case
  proof (cases "import_slide (now i) (random i) x acc")
    case None
    with Cons.prems show ?thesis by simp
  next
    case (Some acc1)
    from Cons.prems Some
    have "a = acc \<or> a \<in> set (fst (import_slides now random (Suc i) slides acc1))"
      by (simp add: Let_def)
    then show ?thesis
      using Cons.IH [of "Suc i" acc1] import_slide_delay [OF Some] by auto
  qed
qed

text \<open>A loop over entries that are all passed over stays in its state and completes.\<close>

lemma import_slides_skipped:
  "list_all (\<lambda>x. slide_corrupt x \<or> slide_duplicate (snd acc) x) slides \<Longrightarrow>
   import_slides now random i slides acc = (replicate (Suc (length slides)) acc, True)"
proof (induction slides arbitrary: i)
  case Nil
  then show ?case by simp
next
  case (Cons x slides)
  then have "import_slide (now i) (random i) x acc = Some acc"
    by (auto simp: import_slide_corrupt import_slide_duplicate)
  with Cons show ?case by simp
qed

lemma slide_decodable_fields:
  assumes "slide_decodable slide"
  obtains sl base64 where "slide = Some sl" "slide_bytes sl = Some base64"
    "base64ToArrayBuffer base64 = Some (slide_payload slide)"
    "slide_signature sl = Some (slide_sig slide)" "js_truthy (slide_sig slide)"
    "to_key (slide_sig slide) \<noteq> None" "slide_type sl \<noteq> Type_no_string"
    "slide_object slide = sl"
  using assms
  by (auto simp: slide_decodable_def slide_payload_def slide_sig_def slide_object_def
      split: option.splits)

lemma import_slide_fresh:
  assumes "slide_decodable slide" "\<not> Set_has (imageSignatures (snd acc)) (slide_sig slide)"
  shows "import_slide now random slide acc =
     Some (fst acc + 1,
      (snd acc)\<lparr>imageEntries := imageEntries (snd acc) @ [imported_entry slide],
         imageSignatures := insert (slide_sig slide) (imageSignatures (snd acc)),
         slides_store := map_option (put_record (imported_record now slide))
                           (slides_store (snd acc))\<rparr>)"
proof -
  from assms(1) obtain sl base64 where f: "slide = Some sl" "slide_bytes sl = Some base64"
    "base64ToArrayBuffer base64 = Some (slide_payload slide)"
    "slide_signature sl = Some (slide_sig slide)" "js_truthy (slide_sig slide)"
    "to_key (slide_sig slide) \<noteq> None" "slide_type sl \<noteq> Type_no_string"
    "slide_object slide = sl"
    by (rule slide_decodable_fields)
  have sig: "field_or (slide_signature sl) d = slide_sig slide" for d
    using f(4,5) by (simp add: field_or_def js_or_def)
  obtain a s where acc: "acc = (a, s)" by (cases acc)
  from f(6) obtain k where k: "to_key (slide_sig slide) = Some k" by auto
  show ?thesis
    using assms(2) f(3,5) sig k unfolding acc f(1)
    by (cases s)
      (simp add: import_slide_def f(2) type_argument_text [OF f(7)] Let_def registerEntry_def
        saveSlideRecord_def imported_entry_def imported_record_def put_record_def
        slide_object_def new_Blob_def split: option.splits)
qed

lemma decodable_not_corrupt: "slide_decodable x \<Longrightarrow> \<not> slide_corrupt x"
  by (auto simp: slide_decodable_def slide_corrupt_def split: option.splits)

text \<open>
  A loop over entries that are corrupt or decodable, the signatures of the decodable ones
  being distinct and new: it completes, and the decodable ones are registered and stored.
\<close>

lemma import_slides_decodable:
  assumes "list_all (\<lambda>x. slide_corrupt x \<or> slide_decodable x) slides"
    and "distinct (map slide_sig (filter slide_decodable slides))"
    and "set (map slide_sig (filter slide_decodable slides)) \<inter> imageSignatures (snd acc) = {}"
  shows "snd (import_slides now random i slides acc) \<and>
    last (fst (import_slides now random i slides acc)) =
     (fst acc + length (filter slide_decodable slides),
      (snd acc)\<lparr>imageEntries :=
           imageEntries (snd acc) @ map imported_entry (filter slide_decodable slides),
         imageSignatures :=
           imageSignatures (snd acc) \<union> set (map slide_sig (filter slide_decodable slides)),
         slides_store :=
           map_option (fold put_record (imported_records now i slides))
             (slides_store (snd acc))\<rparr>)"
  using assms
proof (induction slides arbitrary: i acc)
  case Nil
  show ?case by (cases acc) (simp add: option.map_ident)
next
  case (Cons x slides)
  obtain a s where acc: "acc = (a, s)" by (cases acc)
  show ?case
  proof (cases "slide_decodable x")
    case False
    with Cons.prems(1) have "slide_corrupt x" by simp
    then have step: "import_slide (now i) (random i) x acc = Some acc"
      by (rule import_slide_corrupt)
    from Cons.prems False show ?thesis
      by (simp add: step Cons.IH import_slides_first Let_def)
  next
    case True
    from Cons.prems(3) True have "slide_sig x \<notin> imageSignatures (snd acc)"
      by auto
    then have fresh: "\<not> Set_has (imageSignatures (snd acc)) (slide_sig x)"
      using Set_has_member by blast
    let ?acc' = "(a + 1,
        s\<lparr>imageEntries := imageEntries s @ [imported_entry x],
          imageSignatures := insert (slide_sig x) (imageSignatures s),
          slides_store := map_option (put_record (imported_record (now i) x)) (slides_store s)\<rparr>)"
    have step: "import_slide (now i) (random i) x acc = Some ?acc'"
      using import_slide_fresh [OF True fresh, of "now i" "random i"] by (simp add: acc)
    have p1: "list_all (\<lambda>x. slide_corrupt x \<or> slide_decodable x) slides"
      using Cons.prems(1) by simp
    have p2: "distinct (map slide_sig (filter slide_decodable slides))"
      using Cons.prems(2) True by simp
    have p3: "set (map slide_sig (filter slide_decodable slides)) \<inter> imageSignatures (snd ?acc') = {}"
      using Cons.prems(2,3) True by (auto simp: acc)
    note IH = Cons.IH [OF p1 p2 p3, of "Suc i"]
    have "snd (import_slides now random i (x # slides) acc) =
        snd (import_slides now random (Suc i) slides ?acc')"
      "last (fst (import_slides now random i (x # slides) acc)) =
        last (fst (import_slides now random (Suc i) slides ?acc'))"
      by (simp_all add: step Let_def import_slides_first)
    with IH show ?thesis
      using True unfolding acc
      by (cases s) (simp add: option.map_comp o_def)
  qed
qed

text \<open>
  The result and the final state of \<^verbatim>\<open>importSavedPackage\<close> for a package that passes the
  gate.
\<close>

lemma importSavedPackage_accepted:
  assumes "js_Number (data_version data) = SAVE_PACKAGE_VERSION"
    "data_slides data = Some slides"
  shows "importSavedPackage now random (Some (Json_object data)) s =
     (let s1 = (case data_delay data of None \<Rightarrow> s | Some d \<Rightarrow> applyDelay d True s);
          run = import_slides now random 0 slides (0, s1)
      in (if snd run
          then \<lparr>result_added = fst (last (fst run)), result_total = length slides,
                result_error = False\<rparr>
          else import_failed,
          snd (last (fst run))))"
  using assms
  by (simp add: importSavedPackage_def importSavedPackage_run_def Let_def last_map
      import_slides_first)

lemma importSavedPackage_refused:
  "shape_mismatch parsed \<or> version_mismatch parsed \<Longrightarrow>
   importSavedPackage_run now random parsed s = (import_failed, [s])"
  by (auto simp: shape_mismatch_def version_mismatch_def importSavedPackage_run_def
      SAVE_PACKAGE_VERSION_def split: option.splits json_doc.splits)

section \<open>Rejected and partly corrupt packages\<close>

lemma applyDelay_first_state:
  "applyDelay (Finite 5000) True first_state =
     first_state\<lparr>delayRange_value := Finite 2000, delayInput_value := Finite 2000,
       localStorage_delay := Some (Some (Finite 2000))\<rparr>"
  by (simp add: applyDelay_def clamp_delay_def js_or_zero_def storeDelay_def first_state_def
      Let_def)

text \<open>
  Claim C4, as stated, fails: the package \<^verbatim>\<open>{"version": true, "delay": 5000, "slides": []}\<close>
  has a version field that differs from \<open>1\<close>, and \<^verbatim>\<open>Number(true)\<close> is \<open>1\<close>; it is
  accepted, the result carries no error, and the delay setting changes.
\<close>

theorem version_true_accepted:
  "version_differs (Some version_true_package) \<and>
   importSavedPackage fixed_clock fixed_random (Some version_true_package) first_state =
     (\<lparr>result_added = 0, result_total = 0, result_error = False\<rparr>,
      first_state\<lparr>delayRange_value := Finite 2000, delayInput_value := Finite 2000,
        localStorage_delay := Some (Some (Finite 2000))\<rparr>) \<and>
   first_state\<lparr>delayRange_value := Finite 2000, delayInput_value := Finite 2000,
        localStorage_delay := Some (Some (Finite 2000))\<rparr> \<noteq> first_state"
proof -
  have "version_differs (Some version_true_package)"
    by (simp add: version_differs_def version_true_package_def)
  moreover have "importSavedPackage fixed_clock fixed_random (Some version_true_package)
      first_state =
     (\<lparr>result_added = 0, result_total = 0, result_error = False\<rparr>,
      first_state\<lparr>delayRange_value := Finite 2000, delayInput_value := Finite 2000,
        localStorage_delay := Some (Some (Finite 2000))\<rparr>)"
    by (simp add: importSavedPackage_def importSavedPackage_run_def version_true_package_def
        SAVE_PACKAGE_VERSION_def Let_def applyDelay_first_state)
  moreover have "first_state\<lparr>delayRange_value := Finite 2000, delayInput_value := Finite 2000,
        localStorage_delay := Some (Some (Finite 2000))\<rparr> \<noteq> first_state"
  proof
    assume "first_state\<lparr>delayRange_value := Finite 2000, delayInput_value := Finite 2000,
        localStorage_delay := Some (Some (Finite 2000))\<rparr> = first_state"
    then have "delayRange_value (first_state\<lparr>delayRange_value := Finite 2000,
        delayInput_value := Finite 2000,
        localStorage_delay := Some (Some (Finite 2000))\<rparr>) = delayRange_value first_state"
      by simp
    then show False by (simp add: first_state_def)
  qed
  ultimately show ?thesis by simp
qed

text \<open>
  Claim C4, amended. A package document whose top-level shape does not match (the text
  is not JSON, its value is not an object, \<^verbatim>\<open>slides\<close> is not an array) or whose version
  field does not convert to the number \<open>1\<close> (the script compares
  \<^verbatim>\<open>Number(data.version)\<close> with \<open>1\<close>) is answered with \<open>added = 0\<close>, \<open>total = 0\<close>,
  \<open>error = true\<close>, and the whole state (gallery entries, signature set, store, delay
  setting) stays as it was.
\<close>

theorem unsupported_package_rejected:
  assumes "shape_mismatch parsed \<or> version_mismatch parsed"
  shows "importSavedPackage now random parsed s =
     (\<lparr>result_added = 0, result_total = 0, result_error = True\<rparr>, s)"
  using importSavedPackage_refused [OF assms, of now random s]
  by (simp add: importSavedPackage_def import_failed_def)

theorem unsupported_package_rejected_witness:
  "version_mismatch (Some version2_package) \<and>
   importSavedPackage fixed_clock fixed_random (Some version2_package) first_state =
     (\<lparr>result_added = 0, result_total = 0, result_error = True\<rparr>, first_state)"
proof -
  have h: "version_mismatch (Some version2_package)"
    by (simp add: version_mismatch_def version2_package_def)
  then have "shape_mismatch (Some version2_package) \<or> version_mismatch (Some version2_package)"
    by simp
  from h unsupported_package_rejected [OF this] show ?thesis by simp
qed

lemma clamp_delay_Finite: "clamp_delay (Finite q) = Finite (min 2000 (max 0 q))"
  by (simp add: clamp_delay_def js_or_zero_def)

lemma clamp_delay_other:
  "clamp_delay NaN = Finite 0" "clamp_delay NegInf = Finite 0" "clamp_delay PosInf = Finite 2000"
  by (simp_all add: clamp_delay_def js_or_zero_def)

lemma slide_duplicate_applyDelay [simp]:
  "slide_duplicate (applyDelay v p s) x = slide_duplicate s x"
  by (simp add: slide_duplicate_def split: option.splits)

text \<open>
  Claim C10. For a version-1 package whose \<^verbatim>\<open>delay\<close> is a number \<open>v\<close>, the delay is
  applied and persisted before any slide entry is processed: the state in which the loop
  over the slides starts is the state of the call with \<^verbatim>\<open>applyDelay(v)\<close> done, in which
  the gallery, the signature set and the store are still those of the call; in that state
  and in the state after every iteration, so also in the state the call leaves, the two
  delay controls hold the clamped delay and so does the stored item whenever
  \<^verbatim>\<open>localStorage\<close> exists, whatever the slide entries are. The clamped delay of a number
  \<open>q\<close> is \<open>q\<close> brought into the range from \<open>0\<close> to \<open>2000\<close>, that of not-a-number is \<open>0\<close>. When
  every entry is corrupt or a duplicate, the result is \<open>added = 0\<close> with no error and the
  state is exactly the old one with the new delay.
\<close>

theorem import_applies_delay_first:
  assumes "js_Number (data_version d) = SAVE_PACKAGE_VERSION" "data_slides d = Some slides"
    "data_delay d = Some v"
  shows "hd (snd (importSavedPackage_run now random (Some (Json_object d)) s)) =
      applyDelay v True s \<and>
    imageEntries (applyDelay v True s) = imageEntries s \<and>
    imageSignatures (applyDelay v True s) = imageSignatures s \<and>
    slides_store (applyDelay v True s) = slides_store s \<and>
    (\<forall>t \<in> set (snd (importSavedPackage_run now random (Some (Json_object d)) s)).
       delayRange_value t = clamp_delay v \<and> delayInput_value t = clamp_delay v \<and>
       localStorage_delay t =
         (case localStorage_delay s of None \<Rightarrow> None | Some item \<Rightarrow> Some (Some (clamp_delay v)))) \<and>
    snd (importSavedPackage now random (Some (Json_object d)) s) =
      last (snd (importSavedPackage_run now random (Some (Json_object d)) s)) \<and>
    delayRange_value (snd (importSavedPackage now random (Some (Json_object d)) s)) =
      clamp_delay v \<and>
    delayInput_value (snd (importSavedPackage now random (Some (Json_object d)) s)) =
      clamp_delay v \<and>
    localStorage_delay (snd (importSavedPackage now random (Some (Json_object d)) s)) =
      (case localStorage_delay s of None \<Rightarrow> None | Some item \<Rightarrow> Some (Some (clamp_delay v))) \<and>
    clamp_delay (Finite q) = Finite (min 2000 (max 0 q)) \<and>
    clamp_delay NaN = Finite 0 \<and> clamp_delay NegInf = Finite 0 \<and>
    clamp_delay PosInf = Finite 2000 \<and>
    (list_all (\<lambda>x. slide_corrupt x \<or> slide_duplicate s x) slides \<longrightarrow>
     importSavedPackage now random (Some (Json_object d)) s =
       (\<lparr>result_added = 0, result_total = length slides, result_error = False\<rparr>,
        applyDelay v True s))"
proof -
  let ?s1 = "applyDelay v True s"
  let ?loop = "import_slides now random 0 slides (0, ?s1)"
  let ?run = "importSavedPackage_run now random (Some (Json_object d)) s"
  have states: "snd ?run = map snd (fst ?loop)"
    using assms by (simp add: importSavedPackage_run_def Let_def)
  have first: "hd (snd ?run) = ?s1"
    unfolding states using import_slides_first [of now random 0 slides "(0, ?s1)"]
    by (simp add: hd_map)
  have delay: "delayRange_value t = clamp_delay v \<and> delayInput_value t = clamp_delay v \<and>
       localStorage_delay t =
         (case localStorage_delay s of None \<Rightarrow> None | Some item \<Rightarrow> Some (Some (clamp_delay v)))"
    if "t \<in> set (snd ?run)" for t
  proof -
    from that obtain a where "a \<in> set (fst ?loop)" "t = snd a"
      unfolding states by auto
    with import_slides_delay [of a now random 0 slides "(0, ?s1)"] show ?thesis
      by (simp add: applyDelay_delay)
  qed
  have final: "snd (importSavedPackage now random (Some (Json_object d)) s) = last (snd ?run)"
    by (simp add: importSavedPackage_def Let_def)
  have "snd ?run \<noteq> []"
    unfolding states using import_slides_first(1) [of now random 0 slides "(0, ?s1)"] by simp
  then have "last (snd ?run) \<in> set (snd ?run)" by (rule last_in_set)
  note last = delay [OF this]
  have skipped: "importSavedPackage now random (Some (Json_object d)) s =
       (\<lparr>result_added = 0, result_total = length slides, result_error = False\<rparr>, ?s1)"
    if "list_all (\<lambda>x. slide_corrupt x \<or> slide_duplicate s x) slides"
  proof -
    have "?loop = (replicate (Suc (length slides)) (0, ?s1), True)"
      using that by (intro import_slides_skipped) simp
    then show ?thesis
      using assms by (simp add: importSavedPackage_accepted Let_def)
  qed
  show ?thesis
    using first delay last skipped
    by (simp add: final clamp_delay_Finite clamp_delay_other)
qed

lemma bad_slide_corrupt: "slide_corrupt bad_slide"
  by (simp add: slide_corrupt_def bad_slide_def bad_object_def base64ToArrayBuffer_def atob_def
      is_ascii_whitespace_def b64_index_def Let_def)

theorem import_applies_delay_first_witness:
  "importSavedPackage fixed_clock fixed_random (Some (Json_object corrupt_package)) first_state =
     (\<lparr>result_added = 0, result_total = 2, result_error = False\<rparr>,
      first_state\<lparr>delayRange_value := Finite 2000, delayInput_value := Finite 2000,
        localStorage_delay := Some (Some (Finite 2000))\<rparr>) \<and>
   hd (snd (importSavedPackage_run fixed_clock fixed_random (Some (Json_object corrupt_package))
         first_state)) =
     first_state\<lparr>delayRange_value := Finite 2000, delayInput_value := Finite 2000,
        localStorage_delay := Some (Some (Finite 2000))\<rparr> \<and>
   clamp_delay (Finite 5000) = Finite 2000 \<and> clamp_delay (Finite 250) = Finite 250 \<and>
   clamp_delay (Finite (- 3)) = Finite 0"
proof -
  have h: "js_Number (data_version corrupt_package) = SAVE_PACKAGE_VERSION"
    "data_slides corrupt_package = Some [None, bad_slide]"
    "data_delay corrupt_package = Some (Finite 5000)"
    by (simp_all add: corrupt_package_def SAVE_PACKAGE_VERSION_def)
  have c: "list_all (\<lambda>x. slide_corrupt x \<or> slide_duplicate first_state x) [None, bad_slide]"
    by (simp add: bad_slide_corrupt) (simp add: slide_corrupt_def)
  note a = applyDelay_first_state
  from import_applies_delay_first [OF h, of fixed_clock fixed_random first_state 5000]
    import_applies_delay_first [OF h, of fixed_clock fixed_random first_state 250]
    import_applies_delay_first [OF h, of fixed_clock fixed_random first_state "- 3"] c a
  show ?thesis by simp
qed

lemma store_get_put_other:
  "g \<noteq> rec_signature r \<Longrightarrow> store_get (put_record r store) g = store_get store g"
  by (auto simp: store_get_def put_record_def update_conv' dest: to_key_inj split: option.splits)

lemma store_get_put_same:
  "to_key (rec_signature r) \<noteq> None \<Longrightarrow> store_get (put_record r store) (rec_signature r) = Some r"
  by (auto simp: store_get_def put_record_def update_conv' split: option.splits)

lemma map_of_fold_put_other:
  "g \<notin> rec_signature ` set rs \<Longrightarrow> store_get (fold put_record rs store) g = store_get store g"
  by (induction rs arbitrary: store) (auto simp: store_get_put_other)

lemma map_of_fold_put:
  "distinct (map rec_signature rs) \<Longrightarrow> r \<in> set rs \<Longrightarrow> to_key (rec_signature r) \<noteq> None \<Longrightarrow>
   store_get (fold put_record rs store) (rec_signature r) = Some r"
proof (induction rs arbitrary: store)
  case Nil
  then show ?case by simp
next
  case (Cons a rs)
  show ?case
  proof (cases "r = a")
    case True
    with Cons.prems(1) have "rec_signature r \<notin> rec_signature ` set rs" by auto
    then show ?thesis
      using True Cons.prems(3) by (simp add: map_of_fold_put_other store_get_put_same)
  next
    case False
    with Cons show ?thesis by simp
  qed
qed

lemma imported_records_signatures:
  "map rec_signature (imported_records now i slides) =
   map slide_sig (filter slide_decodable slides)"
  by (induction slides arbitrary: i) (simp_all add: imported_record_def)

lemma imported_records_member:
  "x \<in> set slides \<Longrightarrow> slide_decodable x \<Longrightarrow>
   \<exists>r \<in> set (imported_records now i slides).
     rec_signature r = slide_sig x \<and> rec_bytes r = slide_payload x"
proof (induction slides arbitrary: i)
  case Nil
  then show ?case by simp
next
  case (Cons y slides)
  show ?case
  proof (cases "x = y")
    case True
    with Cons.prems show ?thesis by (simp add: imported_record_def)
  next
    case False
    with Cons.prems have "x \<in> set slides" by simp
    from Cons.IH [OF this Cons.prems(2), of "Suc i"] show ?thesis by auto
  qed
qed

lemma corrupt_bytes:
  "slide_bytes b = Some base64 \<Longrightarrow> base64ToArrayBuffer base64 = None \<Longrightarrow> slide_corrupt (Some b)"
  by (simp add: slide_corrupt_def)

text \<open>
  Claim C5. A version-1 package of five decodable slide entries (their \<^verbatim>\<open>bytes\<close> decode
  and the Blob constructor accepts their \<^verbatim>\<open>type\<close>), with signatures of their own that are
  distinct, valid as keys of the store and not yet known, and one entry whose \<^verbatim>\<open>bytes\<close>
  do not decode (at any position), imported with a working store: the result is \<open>added = 5\<close>,
  \<open>total = 6\<close>, no error; the five are appended to the gallery in their order, their
  signatures join the signature set, and the store afterwards holds under each of the
  five signatures a record with that signature and the decoded bytes.
\<close>

theorem one_corrupt_slide_of_six:
  assumes version: "js_Number (data_version d) = SAVE_PACKAGE_VERSION"
    and slides: "data_slides d = Some (xs @ Some b # ys)"
    and five: "length xs + length ys = 5"
    and good: "list_all slide_decodable (xs @ ys)"
    and fresh: "distinct (map slide_sig (xs @ ys))"
      "set (map slide_sig (xs @ ys)) \<inter> imageSignatures s = {}"
    and bad: "slide_bytes b = Some base64" "base64ToArrayBuffer base64 = None"
    and store: "slides_store s = Some store"
  shows "fst (importSavedPackage now random (Some (Json_object d)) s) =
      \<lparr>result_added = 5, result_total = 6, result_error = False\<rparr> \<and>
    imageEntries (snd (importSavedPackage now random (Some (Json_object d)) s)) =
      imageEntries s @ map imported_entry (xs @ ys) \<and>
    imageSignatures (snd (importSavedPackage now random (Some (Json_object d)) s)) =
      imageSignatures s \<union> set (map slide_sig (xs @ ys)) \<and>
    slides_store (snd (importSavedPackage now random (Some (Json_object d)) s)) =
      Some (fold put_record (imported_records now 0 (xs @ Some b # ys)) store) \<and>
    list_all (\<lambda>x. \<exists>r. store_get (fold put_record (imported_records now 0 (xs @ Some b # ys)) store)
                        (slide_sig x) = Some r \<and>
                      rec_signature r = slide_sig x \<and> rec_bytes r = slide_payload x)
      (xs @ ys)"
proof -
  let ?slides = "xs @ Some b # ys"
  let ?s1 = "case data_delay d of None \<Rightarrow> s | Some v \<Rightarrow> applyDelay v True s"
  have corrupt: "slide_corrupt (Some b)" using bad by (rule corrupt_bytes)
  then have nd: "\<not> slide_decodable (Some b)" using decodable_not_corrupt by blast
  have filt: "filter slide_decodable ?slides = xs @ ys"
    using good nd by (simp add: list_all_iff filter_id_conv)
  have s1: "imageEntries ?s1 = imageEntries s" "imageSignatures ?s1 = imageSignatures s"
    "slides_store ?s1 = slides_store s"
    by (simp_all split: option.splits)
  have all: "list_all (\<lambda>x. slide_corrupt x \<or> slide_decodable x) ?slides"
    using good corrupt by (auto simp: list_all_iff)
  let ?loop = "import_slides now random 0 ?slides (0, ?s1)"
  have loop: "snd ?loop" "last (fst ?loop) =
     (length (xs @ ys),
      ?s1\<lparr>imageEntries := imageEntries s @ map imported_entry (xs @ ys),
         imageSignatures := imageSignatures s \<union> set (map slide_sig (xs @ ys)),
         slides_store := Some (fold put_record (imported_records now 0 ?slides) store)\<rparr>)"
    using import_slides_decodable [of ?slides "(0, ?s1)" now random 0] all fresh
    by (simp_all only: filt s1 store fst_conv snd_conv option.map) simp_all
  have run: "importSavedPackage now random (Some (Json_object d)) s =
      (\<lparr>result_added = fst (last (fst ?loop)),
        result_total = length ?slides, result_error = False\<rparr>,
       snd (last (fst ?loop)))"
    using version slides loop(1) by (simp add: importSavedPackage_accepted Let_def)
  have sigs: "distinct (map rec_signature (imported_records now 0 ?slides))"
    using fresh(1) by (simp only: imported_records_signatures filt)
  have stored: "\<exists>r. store_get (fold put_record (imported_records now 0 ?slides) store) (slide_sig x)
        = Some r \<and> rec_signature r = slide_sig x \<and> rec_bytes r = slide_payload x"
    if "x \<in> set (xs @ ys)" for x
  proof -
    from that good have "x \<in> set ?slides" "slide_decodable x"
      by (auto simp: list_all_iff)
    then obtain r where r: "r \<in> set (imported_records now 0 ?slides)"
      "rec_signature r = slide_sig x" "rec_bytes r = slide_payload x"
      using imported_records_member by blast
    from \<open>slide_decodable x\<close> have "to_key (slide_sig x) \<noteq> None"
      by (rule slide_decodable_fields)
    with r(2) have "to_key (rec_signature r) \<noteq> None" by simp
    from map_of_fold_put [OF sigs r(1) this, of store] r(2,3) show ?thesis by auto
  qed
  show ?thesis
    unfolding run loop(2) using five stored by (simp add: list_all_iff)
qed


lemma undecodable_example: "base64ToArrayBuffer ''!!!'' = None"
  by (simp add: base64ToArrayBuffer_def atob_def is_ascii_whitespace_def b64_index_def Let_def)

lemma decodable_example: "base64ToArrayBuffer ''QQ=='' = Some [65]"
  by (simp add: base64ToArrayBuffer_def atob_def is_ascii_whitespace_def b64_index_def Let_def
      charCode_byte_def)

lemma good_slide_decodable: "g \<noteq> [] \<Longrightarrow> slide_decodable (good_slide g)"
  by (simp add: slide_decodable_def good_slide_def decodable_example)

lemma good_slide_sig: "slide_sig (good_slide g) = JString g"
  by (simp add: slide_sig_def good_slide_def)

theorem one_corrupt_slide_of_six_witness:
  "fst (importSavedPackage fixed_clock fixed_random (Some (Json_object six_slides)) first_state) =
     \<lparr>result_added = 5, result_total = 6, result_error = False\<rparr> \<and>
   imageSignatures
     (snd (importSavedPackage fixed_clock fixed_random (Some (Json_object six_slides)) first_state)) =
     {JString ''s1'', JString ''s2'', JString ''s3'', JString ''s4'', JString ''s5''}"
proof -
  let ?xs = "[good_slide ''s1'', good_slide ''s2'']"
  let ?ys = "[good_slide ''s3'', good_slide ''s4'', good_slide ''s5'']"
  have version: "js_Number (data_version six_slides) = SAVE_PACKAGE_VERSION"
    by (simp add: six_slides_def SAVE_PACKAGE_VERSION_def)
  have slides: "data_slides six_slides = Some (?xs @ Some bad_object # ?ys)"
    by (simp add: six_slides_def bad_slide_def)
  have five: "length ?xs + length ?ys = 5" by simp
  have good: "list_all slide_decodable (?xs @ ?ys)"
    by (simp add: good_slide_decodable)
  have fresh: "distinct (map slide_sig (?xs @ ?ys))"
    "set (map slide_sig (?xs @ ?ys)) \<inter> imageSignatures first_state = {}"
    by (simp_all add: good_slide_sig first_state_def)
  have bad: "slide_bytes bad_object = Some ''!!!''" "base64ToArrayBuffer ''!!!'' = None"
    by (simp_all add: bad_object_def undecodable_example)
  have store: "slides_store first_state = Some []"
    by (simp add: first_state_def)
  from one_corrupt_slide_of_six [OF version slides five good fresh bad store,
      of fixed_clock fixed_random]
  show ?thesis
    by (auto simp: good_slide_sig first_state_def)
qed

section \<open>The content store\<close>

lemma list_all_update:
  "list_all P al \<Longrightarrow> P (k, v) \<Longrightarrow> list_all P (AList.update k v al)"
  by (induction al) (simp_all split: prod.splits)

lemma store_keyed_Cons:
  "store_keyed (kr # store) \<Longrightarrow>
   store_keyed store \<and> to_key (rec_signature (snd kr)) = Some (fst kr)"
  by (simp add: store_keyed_def)

lemma store_keyed_keys:
  "store_keyed store \<Longrightarrow> map (\<lambda>kr. to_key (rec_signature (snd kr))) store = map (\<lambda>kr. Some (fst kr)) store"
proof (induction store)
  case Nil
  then show ?case by simp
next
  case (Cons kr store)
  from store_keyed_Cons [OF Cons.prems] Cons.IH show ?case
    by simp
qed

lemma distinct_map_outer: "distinct (map (\<lambda>x. f (g x)) xs) \<Longrightarrow> distinct (map g xs)"
  by (induction xs) auto

lemma store_keyed_distinct:
  assumes "store_keyed store"
  shows "distinct (map rec_signature (map snd store))"
proof -
  have "distinct (map (\<lambda>kr. Some (fst kr)) store)"
    using assms by (simp add: store_keyed_def distinct_map inj_on_def)
  then have "distinct (map (\<lambda>kr. to_key (rec_signature (snd kr))) store)"
    by (simp only: store_keyed_keys [OF assms])
  then have "distinct (map (\<lambda>kr. rec_signature (snd kr)) store)"
    by (rule distinct_map_outer)
  then show ?thesis by (simp add: o_def)
qed

lemma store_keyed_put: "store_keyed store \<Longrightarrow> store_keyed (put_record r store)"
  by (simp add: store_keyed_def put_record_def distinct_update list_all_update
      split: option.splits)

lemma store_keyed_sort: "store_keyed store \<Longrightarrow> store_keyed (sort_key fst store)"
  by (auto simp: store_keyed_def list_all_iff distinct_map)

lemma getAll_distinct: "store_keyed store \<Longrightarrow> distinct (map rec_signature (getAll store))"
  unfolding getAll_def by (rule store_keyed_distinct [OF store_keyed_sort])


lemma set_getAll: "set (getAll store) = snd ` set store"
  by (simp add: getAll_def)

lemma getPersistedSlides_Some:
  "slides_store s = Some store \<Longrightarrow>
   getPersistedSlides s = Array_sort compare_addedAt (getAll store)"
  by (simp add: getPersistedSlides_def)


lemma set_getPersistedSlides:
  "slides_store s = Some store \<Longrightarrow> set (getPersistedSlides s) = snd ` set store"
  by (simp add: getPersistedSlides_Some set_getAll)

text \<open>
  The number that the comparator reads in a record whose \<^verbatim>\<open>addedAt\<close> is a number, a
  boolean or falsy is not \<^verbatim>\<open>NaN\<close>; on such records the comparator is consistent, and
  \<^verbatim>\<open>getPersistedSlides\<close> is in ascending order of those numbers.
\<close>

lemma timed_record_number: "timed_record r \<Longrightarrow> addedAt_number r \<noteq> NaN"
  by (cases "rec_addedAt r") (auto simp: timed_record_def addedAt_number_def js_or_def)

lemma compare_addedAt_minus:
  "compare_addedAt = (\<lambda>a b. js_minus (addedAt_number a) (addedAt_number b))"
  by (simp add: compare_addedAt_def addedAt_number_def fun_eq_iff)

lemma getPersistedSlides_timed:
  assumes "slides_store s = Some store" "list_all timed_record (map snd store)"
  shows "getPersistedSlides s = sort_key addedAt_number (getAll store)"
proof -
  have "\<forall>r \<in> set (getAll store). addedAt_number r \<noteq> NaN"
    using assms(2) by (auto simp: set_getAll list_all_iff timed_record_number)
  then show ?thesis
    unfolding getPersistedSlides_Some [OF assms(1)] compare_addedAt_minus
    by (rule Array_sort_sort_key)
qed

lemma getPersistedSlides_sorted:
  assumes "list_all timed_record (getPersistedSlides s)"
  shows "sorted (map addedAt_number (getPersistedSlides s))"
proof (cases "slides_store s")
  case None
  then show ?thesis by (simp add: getPersistedSlides_def)
next
  case (Some store)
  from assms have "list_all timed_record (map snd store)"
    by (simp add: list_all_iff set_getPersistedSlides [OF Some])
  from getPersistedSlides_timed [OF Some this] show ?thesis by simp
qed



lemma stored_slides_distinct: "store_ok s \<Longrightarrow> distinct (map rec_signature (stored_slides s))"
  by (auto simp: stored_slides_def store_ok_def getAll_distinct split: option.splits)


section \<open>Restoring the gallery\<close>

lemma restore_slides_store [simp]:
  "slides_store (restore_slides now i slides s) = slides_store s"
  by (induction slides arbitrary: i s) simp_all

lemma restore_slides_delay [simp]:
  "delayRange_value (restore_slides now i slides s) = delayRange_value s"
  "delayInput_value (restore_slides now i slides s) = delayInput_value s"
  "localStorage_delay (restore_slides now i slides s) = localStorage_delay s"
  by (induction slides arbitrary: i s) simp_all


section \<open>Properties that every operation keeps\<close>

text \<open>
  A property of the state that each registration of a loop keeps is kept by the loop,
  and so by the operations made of the loops.
\<close>

lemma import_slides_invariant:
  assumes "\<And>i slide acc acc1. slide \<in> set slides \<Longrightarrow> P (snd acc) \<Longrightarrow>
      import_slide (now i) (random i) slide acc = Some acc1 \<Longrightarrow> P (snd acc1)"
    and "P (snd acc)" and "a \<in> set (fst (import_slides now random i slides acc))"
  shows "P (snd a)"
  using assms
proof (induction slides arbitrary: i acc)
  case Nil
  then show ?case by simp
next
  case (Cons x slides)
  show ?case
  proof (cases "import_slide (now i) (random i) x acc")
    case None
    with Cons.prems(2,3) show ?thesis by simp
  next
    case (Some acc1)
    have P1: "P (snd acc1)"
      using Cons.prems(1) [of x acc i acc1] Cons.prems(2) Some by simp
    from Cons.prems(3) Some
    have "a = acc \<or> a \<in> set (fst (import_slides now random (Suc i) slides acc1))"
      by (simp add: Let_def)
    then show ?thesis
    proof
      assume "a = acc"
      with Cons.prems(2) show ?thesis by simp
    next
      assume rest: "a \<in> set (fst (import_slides now random (Suc i) slides acc1))"
      show ?thesis
      proof (rule Cons.IH [OF _ P1 rest])
        fix j slide b b1
        assume "slide \<in> set slides" "P (snd b)" "import_slide (now j) (random j) slide b = Some b1"
        then show "P (snd b1)" using Cons.prems(1) [of slide b j b1] by simp
      qed
    qed
  qed
qed

lemma set_doc_slides:
  "data_slides data = Some slides \<Longrightarrow>
   set (doc_slides (Some (Json_object data))) = {sl. Some sl \<in> set slides}"
  by (auto simp: doc_slides_def split: option.splits)

lemma import_slide_None [simp]: "import_slide now random None acc = Some acc"
  by (simp add: import_slide_def)

lemma importSavedPackage_invariant:
  assumes delay: "\<And>v. P (applyDelay v True s)"
    and step: "\<And>i sl acc acc1. sl \<in> set (doc_slides parsed) \<Longrightarrow> P (snd acc) \<Longrightarrow>
      import_slide (now i) (random i) (Some sl) acc = Some acc1 \<Longrightarrow> P (snd acc1)"
    and P: "P s"
  shows "P (snd (importSavedPackage now random parsed s))"
proof (cases "shape_mismatch parsed \<or> version_mismatch parsed")
  case True
  from importSavedPackage_refused [OF True, of now random s] P show ?thesis
    by (simp add: importSavedPackage_def)
next
  case False
  then obtain data slides where parsed: "parsed = Some (Json_object data)"
    and ok: "js_Number (data_version data) = SAVE_PACKAGE_VERSION" "data_slides data = Some slides"
    by (auto simp: shape_mismatch_def version_mismatch_def SAVE_PACKAGE_VERSION_def
        split: option.splits json_doc.splits)
  let ?s1 = "case data_delay data of None \<Rightarrow> s | Some d \<Rightarrow> applyDelay d True s"
  let ?run = "import_slides now random 0 slides (0, ?s1)"
  have P1: "P (snd (0::nat, ?s1))" using delay P by (simp split: option.splits)
  have mem: "last (fst ?run) \<in> set (fst ?run)"
    using import_slides_first(1) by (rule last_in_set)
  have "P (snd (last (fst ?run)))"
  proof (rule import_slides_invariant [where P = P and acc = "(0, ?s1)", OF _ P1 mem])
    fix i slide acc acc1
    assume a: "slide \<in> set slides" "P (snd acc)"
      "import_slide (now i) (random i) slide acc = Some acc1"
    show "P (snd acc1)"
    proof (cases slide)
      case None
      with a(2,3) show ?thesis by simp
    next
      case (Some sl)
      with a(1) have "sl \<in> set (doc_slides parsed)"
        unfolding parsed by (simp add: set_doc_slides [OF ok(2)])
      from step [OF this a(2)] a(3) Some show ?thesis by simp
    qed
  qed
  then show ?thesis
    unfolding parsed by (simp add: importSavedPackage_accepted [OF ok] Let_def)
qed

lemma pdf_pages_invariant:
  assumes "\<And>n png s. P s \<Longrightarrow>
      P (snd (registerEntry \<lparr>blob_bytes = png, blob_type = ''image/png''\<rparr>
                (JString (str_or (file_name f) ''PDF'' @ '' - page '' @ nat_to_string n))
                (JString (pageSignature f n)) True (js_int (now n)) s))"
    and "P (snd acc)"
  shows "P (snd (pdf_pages now f pages n acc))"
  using assms(2)
proof (induction pages arbitrary: n acc)
  case Nil
  then show ?case by simp
next
  case (Cons page pages)
  let ?acc' = "if Set_has (imageSignatures (snd acc)) (JString (pageSignature f n)) then acc
     else (case page of
             Page_image png \<Rightarrow>
               let reg = registerEntry \<lparr>blob_bytes = png, blob_type = ''image/png''\<rparr>
                           (JString (str_or (file_name f) ''PDF'' @ '' - page '' @
                                     nat_to_string n))
                           (JString (pageSignature f n)) True (js_int (now n)) (snd acc)
               in (if fst reg then fst acc + 1 else fst acc, snd reg)
           | _ \<Rightarrow> acc)"
  have "P (snd ?acc')"
    using Cons.prems assms(1)
    by (simp add: Let_def split: page_outcome.splits)
  then have "P (snd (pdf_pages now f pages (n + 1) ?acc'))"
    by (rule Cons.IH)
  then show ?case by (simp only: pdf_pages.simps)
qed

lemma addPdfFile_invariant:
  assumes "\<And>n png s. P s \<Longrightarrow>
      P (snd (registerEntry \<lparr>blob_bytes = png, blob_type = ''image/png''\<rparr>
                (JString (str_or (file_name f) ''PDF'' @ '' - page '' @ nat_to_string n))
                (JString (pageSignature f n)) True (js_int (now n)) s))"
    and "P s"
  shows "P (snd (addPdfFile e now f s))"
  using assms(2) pdf_pages_invariant [of P f now "(0, s)", OF assms(1)]
  by (simp add: addPdfFile_def Let_def split: option.splits)

lemma addImageFile_invariant:
  assumes "P (snd (registerEntry (file_blob f) (JString (str_or (file_name f) ''Image''))
      (JString (fileSignature f)) True (js_int now) s))"
    and "P s"
  shows "P (snd (addImageFile now f s))"
  using assms by (simp add: addImageFile_def Let_def)

lemma addFiles_loop_invariant:
  assumes image: "\<And>j f s. f \<in> set files \<Longrightarrow> P s \<Longrightarrow> P (snd (addImageFile (Date_now e j 0) f s))"
    and pdf: "\<And>j f s. f \<in> set files \<Longrightarrow> P s \<Longrightarrow> P (snd (addPdfFile e (Date_now e j) f s))"
    and package: "\<And>j f s. f \<in> set files \<Longrightarrow> P s \<Longrightarrow>
      P (snd (importSavedPackage (Date_now e j) (random_id e j) (JSON_parse_text e (file_bytes f)) s))"
    and "P (snd acc)"
  shows "P (snd (addFiles_loop e j files acc))"
  using assms
proof (induction files arbitrary: j acc)
  case Nil
  then show ?case by simp
next
  case (Cons f files)
  have step: "P (snd (addFiles_step e j f acc))"
    using Cons.prems(1) [of f "snd acc" j] Cons.prems(2) [of f "snd acc" j]
      Cons.prems(3) [of f "snd acc" j] Cons.prems(4)
    by (simp add: addFiles_step_def Let_def split: option.splits)
  show ?case
    unfolding addFiles_loop.simps
  proof (rule Cons.IH [OF _ _ _ step])
    fix k g t assume "g \<in> set files" "P t"
    then show "P (snd (addImageFile (Date_now e k 0) g t))"
      "P (snd (addPdfFile e (Date_now e k) g t))"
      "P (snd (importSavedPackage (Date_now e k) (random_id e k)
            (JSON_parse_text e (file_bytes g)) t))"
      using Cons.prems(1) [of g t k] Cons.prems(2) [of g t k] Cons.prems(3) [of g t k]
      by simp_all
  qed
qed

lemma addFiles_invariant:
  assumes "\<And>j f s. f \<in> set files \<Longrightarrow> P s \<Longrightarrow> P (snd (addImageFile (Date_now e j 0) f s))"
    and "\<And>j f s. f \<in> set files \<Longrightarrow> P s \<Longrightarrow> P (snd (addPdfFile e (Date_now e j) f s))"
    and "\<And>j f s. f \<in> set files \<Longrightarrow> P s \<Longrightarrow>
      P (snd (importSavedPackage (Date_now e j) (random_id e j) (JSON_parse_text e (file_bytes f)) s))"
    and "P s"
  shows "P (snd (addFiles e files s))"
  using assms(4) addFiles_loop_invariant [of files P e "(no_files, s)" 0, OF assms(1,2,3)]
  by (simp add: addFiles_def)

lemma restore_slides_invariant:
  assumes "\<And>i r s. r \<in> set slides \<Longrightarrow> P s \<Longrightarrow>
      P (snd (registerEntry
                (new_Blob (rec_bytes r) (str_or (rec_type r) ''application/octet-stream''))
                (js_or (rec_label r) (JString ''Image'')) (rec_signature r) False
                (js_or (rec_addedAt r) (js_int (now i))) s))"
    and "P s"
  shows "P (restore_slides now i slides s)"
  using assms
proof (induction slides arbitrary: i s)
  case Nil
  then show ?case by simp
next
  case (Cons r slides)
  let ?s' = "if \<not> js_truthy (rec_signature r) then s
     else snd (registerEntry
                (new_Blob (rec_bytes r) (str_or (rec_type r) ''application/octet-stream''))
                (js_or (rec_label r) (JString ''Image'')) (rec_signature r) False
                (js_or (rec_addedAt r) (js_int (now i))) s)"
  have P': "P ?s'" using Cons.prems(1) [of r s i] Cons.prems(2) by simp
  have "P (restore_slides now (Suc i) slides ?s')"
  proof (rule Cons.IH [OF _ P'])
    fix j x t assume "x \<in> set slides" "P t"
    then show "P (snd (registerEntry
                (new_Blob (rec_bytes x) (str_or (rec_type x) ''application/octet-stream''))
                (js_or (rec_label x) (JString ''Image'')) (rec_signature x) False
                (js_or (rec_addedAt x) (js_int (now j))) t))"
      using Cons.prems(1) [of x t j] by simp
  qed
  then show ?case by simp
qed

section \<open>Signature uniqueness\<close>





lemma plain_signatures_append:
  "plain_signatures (s\<lparr>imageEntries := imageEntries s @ [x], imageSignatures := S\<rparr>) =
   plain_signatures s @ (if js_is_object (entry_signature x) then [] else [entry_signature x])"
  by (simp add: plain_signatures_def)

lemma registerEntry_gallery_ok:
  assumes "gallery_ok s"
  shows "gallery_ok (snd (registerEntry b l g p a s))"
proof (cases "Set_has (imageSignatures s) g")
  case True
  with assms show ?thesis by (simp add: registerEntry_known)
next
  case False
  have plain: "g \<notin> set (plain_signatures s)" if "\<not> js_is_object g"
    using that False assms by (auto simp: gallery_ok_def plain_signatures_def Set_has_def)
  have "plain_signatures (snd (registerEntry b l g p a s)) =
      plain_signatures s @ (if js_is_object g then [] else [g])"
    using registerEntry_new [OF False, of b l p a] by (simp add: plain_signatures_def)
  with assms plain registerEntry_new [OF False, of b l p a] show ?thesis
    by (simp add: gallery_ok_def)
qed

lemma registerEntry_store_ok:
  assumes "store_ok s"
  shows "store_ok (snd (registerEntry b l g p a s))"
proof (cases "Set_has (imageSignatures s) g \<or> \<not> p")
  case True
  with assms show ?thesis
    by (auto simp: registerEntry_def Let_def store_ok_def)
next
  case False
  then have new: "\<not> Set_has (imageSignatures s) g" and p: p by simp_all
  show ?thesis
    using assms registerEntry_persist [OF new, of b l a] p
    by (auto simp: store_ok_def store_keyed_put split: option.splits)
qed

lemma registerEntry_consistent:
  "consistent s \<Longrightarrow> consistent (snd (registerEntry b l g p a s))"
  by (simp add: consistent_def registerEntry_gallery_ok registerEntry_store_ok)

lemma applyDelay_consistent [simp]: "consistent (applyDelay v p s) = consistent s"
  by (simp add: consistent_def gallery_ok_def store_ok_def plain_signatures_def)

lemma addImageFile_consistent:
  "consistent s \<Longrightarrow> consistent (snd (addImageFile now f s))"
  by (rule addImageFile_invariant [where P = consistent]) (simp_all add: registerEntry_consistent)

lemma addPdfFile_consistent:
  "consistent s \<Longrightarrow> consistent (snd (addPdfFile e now f s))"
  by (rule addPdfFile_invariant [where P = consistent]) (simp_all add: registerEntry_consistent)

lemma import_slide_consistent:
  "consistent (snd acc) \<Longrightarrow> import_slide now random slide acc = Some acc1 \<Longrightarrow>
   consistent (snd acc1)"
  by (auto simp: import_slide_def Let_def registerEntry_consistent split: option.splits)

lemma importSavedPackage_consistent:
  "consistent s \<Longrightarrow> consistent (snd (importSavedPackage now random parsed s))"
  by (rule importSavedPackage_invariant [where P = consistent])
    (simp_all add: import_slide_consistent)

lemma addFiles_consistent: "consistent s \<Longrightarrow> consistent (snd (addFiles e files s))"
  by (rule addFiles_invariant [where P = consistent])
    (simp_all add: addImageFile_consistent addPdfFile_consistent importSavedPackage_consistent)

lemma restorePersistedSlides_consistent:
  "consistent s \<Longrightarrow> consistent (restorePersistedSlides now s)"
  unfolding restorePersistedSlides_def
  by (rule restore_slides_invariant [where P = consistent]) (simp_all add: registerEntry_consistent)

lemma resetGallery_consistent: "store_ok s \<Longrightarrow> consistent (resetGallery s)"
  by (simp add: resetGallery_def)
    (simp add: consistent_def gallery_ok_def store_ok_def clearPersistedSlides_def store_keyed_def
      plain_signatures_def split: option.splits)

lemma restoreDelaySetting_consistent [simp]: "consistent (restoreDelaySetting s) = consistent s"
  by (simp add: restoreDelaySetting_def split: option.splits)

lemma startup_consistent:
  assumes "store_ok s"
  shows "consistent (startup now s)"
proof -
  have "consistent (s\<lparr>imageEntries := [], imageSignatures := {}\<rparr>)"
    using assms by (simp add: consistent_def gallery_ok_def store_ok_def plain_signatures_def)
  then have "consistent (restoreDelaySetting (s\<lparr>imageEntries := [], imageSignatures := {}\<rparr>))"
    by simp
  then show ?thesis
    unfolding startup_def by (rule restorePersistedSlides_consistent)
qed

lemma reachable_consistent: "reachable ok s \<Longrightarrow> consistent s"
proof (induction rule: reachable.induct)
  case (first_visit s now)
  then have "store_ok s" by (auto simp: store_ok_def store_keyed_def)
  then show ?case by (rule startup_consistent)
next
  case (ingest s e files)
  then show ?case by (simp add: addFiles_consistent)
next
  case (delay s v persist)
  then show ?case by simp
next
  case (reset s)
  then have "store_ok s" by (simp add: consistent_def)
  then show ?case by (rule resetGallery_consistent)
next
  case (reopen s now)
  then have "store_ok s" by (simp add: consistent_def)
  then show ?case by (rule startup_consistent)
next
  case (stalled s)
  then have "consistent (s\<lparr>imageEntries := [], imageSignatures := {}\<rparr>)"
    by (simp add: consistent_def gallery_ok_def store_ok_def plain_signatures_def)
  then show ?case by simp
qed

lemma consistent_unique: "consistent s \<Longrightarrow> unique_plain_signatures s"
  by (simp add: consistent_def unique_plain_signatures_def gallery_ok_def stored_slides_distinct)

subsection \<open>Properties of the stored records\<close>

lemma store_all_put:
  "list_all (\<lambda>kr. R (snd kr)) store \<Longrightarrow> R r \<Longrightarrow> list_all (\<lambda>kr. R (snd kr)) (put_record r store)"
  by (simp add: put_record_def list_all_update split: option.splits)

lemma registerEntry_store_all:
  assumes "store_all R s"
    and "p \<Longrightarrow> R \<lparr>rec_signature = g, rec_label = l, rec_addedAt = a, rec_bytes = blob_bytes b,
                    rec_type = str_or (blob_type b) ''application/octet-stream''\<rparr>"
  shows "store_all R (snd (registerEntry b l g p a s))"
proof (cases "Set_has (imageSignatures s) g \<or> \<not> p")
  case True
  with assms(1) show ?thesis
    by (auto simp: registerEntry_def Let_def store_all_def)
next
  case False
  then have new: "\<not> Set_has (imageSignatures s) g" and p: p by simp_all
  show ?thesis
    using assms(1) assms(2) [OF p] registerEntry_persist [OF new, of b l a] p
    by (auto simp: store_all_def store_all_put split: option.splits)
qed

lemma applyDelay_store_all [simp]: "store_all R (applyDelay v p s) = store_all R s"
  by (simp add: store_all_def)






lemma restorePersistedSlides_store [simp]:
  "slides_store (restorePersistedSlides now s) = slides_store s"
  by (simp add: restorePersistedSlides_def)

lemma restoreDelaySetting_gallery [simp]:
  "imageEntries (restoreDelaySetting s) = imageEntries s"
  "imageSignatures (restoreDelaySetting s) = imageSignatures s"
  "slides_store (restoreDelaySetting s) = slides_store s"
  by (simp_all add: restoreDelaySetting_def split: option.splits)

lemma startup_store [simp]: "slides_store (startup now s) = slides_store s"
  by (simp add: startup_def)

lemma startup_store_all [simp]: "store_all R (startup now s) = store_all R s"
  by (simp add: store_all_def)



lemma doc_slides_batch:
  "f \<in> set files \<Longrightarrow> sl \<in> set (doc_slides (JSON_parse_text e (file_bytes f))) \<Longrightarrow>
   sl \<in> set (batch_slides e files)"
  by (auto simp: batch_slides_def)








subsection \<open>Signatures that are no arrays and no objects\<close>

lemma plain_state_all:
  "plain_state s =
     (list_all (\<lambda>e. \<not> js_is_object (entry_signature e)) (imageEntries s) \<and>
      store_all (\<lambda>r. \<not> js_is_object (rec_signature r)) s)"
  by (simp add: plain_state_def store_all_def)

lemma registerEntry_plain:
  assumes "plain_state s" "\<not> js_is_object g"
  shows "plain_state (snd (registerEntry b l g p a s))"
proof -
  have "list_all (\<lambda>e. \<not> js_is_object (entry_signature e))
      (imageEntries (snd (registerEntry b l g p a s)))"
    using assms by (simp add: registerEntry_def Let_def plain_state_all)
  moreover have "store_all (\<lambda>r. \<not> js_is_object (rec_signature r)) (snd (registerEntry b l g p a s))"
    using assms by (intro registerEntry_store_all) (simp_all add: plain_state_all)
  ultimately show ?thesis by (simp add: plain_state_all)
qed

lemma applyDelay_plain [simp]: "plain_state (applyDelay v p s) = plain_state s"
  by (simp add: plain_state_def)

lemma addImageFile_plain: "plain_state s \<Longrightarrow> plain_state (snd (addImageFile now f s))"
  by (rule addImageFile_invariant [where P = plain_state]) (simp_all add: registerEntry_plain)

lemma addPdfFile_plain: "plain_state s \<Longrightarrow> plain_state (snd (addPdfFile e now f s))"
  by (rule addPdfFile_invariant [where P = plain_state]) (simp_all add: registerEntry_plain)

lemma field_or_plain:
  "(case x of None \<Rightarrow> True | Some g \<Rightarrow> \<not> js_is_object g) \<Longrightarrow> \<not> js_is_object d \<Longrightarrow>
   \<not> js_is_object (field_or x d)"
  by (simp add: field_or_def js_or_def split: option.splits)

lemma import_slide_plain:
  assumes "plain_signature sl" "plain_state (snd acc)"
    "import_slide now random (Some sl) acc = Some acc1"
  shows "plain_state (snd acc1)"
proof -
  have "\<not> js_is_object (field_or (slide_signature sl) (JString (generateImportSignature random)))"
    using assms(1) by (simp add: plain_signature_def field_or_plain)
  with assms(2,3) show ?thesis
    by (auto simp: import_slide_def Let_def registerEntry_plain split: option.splits)
qed

lemma importSavedPackage_plain:
  assumes "list_all plain_signature (doc_slides parsed)" "plain_state s"
  shows "plain_state (snd (importSavedPackage now random parsed s))"
proof (rule importSavedPackage_invariant [where P = plain_state, OF _ _ assms(2)])
  show "plain_state (applyDelay v True s)" for v using assms(2) by simp
next
  fix i sl acc acc1
  assume "sl \<in> set (doc_slides parsed)" "plain_state (snd acc)"
    "import_slide (now i) (random i) (Some sl) acc = Some acc1"
  with assms(1) show "plain_state (snd acc1)"
    using import_slide_plain [of sl acc "now i" "random i" acc1] by (simp add: list_all_iff)
qed

lemma addFiles_plain:
  assumes "plain_input e files" "plain_state s"
  shows "plain_state (snd (addFiles e files s))"
proof (rule addFiles_invariant [where P = plain_state, OF _ _ _ assms(2)])
  fix j f t assume f: "f \<in> set files" and t: "plain_state t"
  show "plain_state (snd (addImageFile (Date_now e j 0) f t))"
    using t by (rule addImageFile_plain)
  show "plain_state (snd (addPdfFile e (Date_now e j) f t))"
    using t by (rule addPdfFile_plain)
  have "list_all plain_signature (doc_slides (JSON_parse_text e (file_bytes f)))"
    using assms(1) f doc_slides_batch [of f files _ e]
    by (auto simp: plain_input_def list_all_iff)
  then show "plain_state (snd (importSavedPackage (Date_now e j) (random_id e j)
      (JSON_parse_text e (file_bytes f)) t))"
    using t by (rule importSavedPackage_plain)
qed

lemma restorePersistedSlides_plain:
  assumes "plain_state s"
  shows "plain_state (restorePersistedSlides now s)"
  unfolding restorePersistedSlides_def
proof (rule restore_slides_invariant [where P = plain_state, OF _ assms])
  fix i r t assume r: "r \<in> set (getPersistedSlides s)" and t: "plain_state t"
  have "\<not> js_is_object (rec_signature r)"
  proof (cases "slides_store s")
    case None
    with r show ?thesis by (simp add: getPersistedSlides_def)
  next
    case (Some store)
    with r assms show ?thesis
      by (auto simp: set_getPersistedSlides [OF Some] plain_state_def list_all_iff)
  qed
  with t show "plain_state (snd (registerEntry
      (new_Blob (rec_bytes r) (str_or (rec_type r) ''application/octet-stream''))
      (js_or (rec_label r) (JString ''Image'')) (rec_signature r) False
      (js_or (rec_addedAt r) (js_int (now i))) t))"
    by (rule registerEntry_plain)
qed

lemma startup_plain:
  assumes "plain_state s"
  shows "plain_state (startup now s)"
proof -
  have "plain_state (restoreDelaySetting (s\<lparr>imageEntries := [], imageSignatures := {}\<rparr>))"
    using assms by (simp add: plain_state_def)
  then show ?thesis
    unfolding startup_def by (rule restorePersistedSlides_plain)
qed

lemma resetGallery_plain: "plain_state (resetGallery s)"
  by (simp add: resetGallery_def)
    (simp add: plain_state_def clearPersistedSlides_def split: option.splits)

lemma reachable_plain: "reachable plain_input s \<Longrightarrow> plain_state s"
proof (induction rule: reachable.induct)
  case (first_visit s now)
  then have "plain_state (restoreDelaySetting (s\<lparr>imageEntries := [], imageSignatures := {}\<rparr>))"
    by (auto simp: plain_state_def)
  then show ?case unfolding startup_def by (rule restorePersistedSlides_plain)
next
  case (ingest s e files)
  then show ?case by (simp add: addFiles_plain)
next
  case (delay s v persist)
  then show ?case by simp
next
  case (reset s)
  show ?case by (rule resetGallery_plain)
next
  case (reopen s now)
  then show ?case by (simp add: startup_plain)
next
  case (stalled s)
  then show ?case by (simp add: plain_state_def)
qed

lemma plain_unique:
  assumes "consistent s" "plain_state s"
  shows "unique_signatures s"
proof -
  have "plain_signatures s = map entry_signature (imageEntries s)"
    using assms(2) by (simp add: plain_signatures_def plain_state_def list_all_iff filter_id_conv)
  with consistent_unique [OF assms(1)] show ?thesis
    by (simp add: unique_signatures_def unique_plain_signatures_def)
qed

subsection \<open>The invariant\<close>

lemma startup_first_state: "startup fixed_clock first_state = first_state"
  by (simp add: startup_def first_state_def restoreDelaySetting_def getStoredDelay_def
      applyDelay_def clamp_delay_def js_or_zero_def DEFAULT_DELAY_def Let_def
      restorePersistedSlides_def getPersistedSlides_def getAll_def Array_sort_def)

lemma package_file_candidate: "isPackageCandidate package_file"
  by (simp add: isPackageCandidate_def package_file_def)

lemma addFiles_package:
  assumes "isPackageCandidate f"
    "\<not> result_error (fst (importSavedPackage (Date_now e 0) (random_id e 0)
        (JSON_parse_text e (file_bytes f)) s))"
  shows "addFiles e [f] s =
     (no_files\<lparr>packagesProcessed := 1,
        supported := result_total (fst (importSavedPackage (Date_now e 0) (random_id e 0)
          (JSON_parse_text e (file_bytes f)) s)),
        packageSlidesTotal := result_total (fst (importSavedPackage (Date_now e 0) (random_id e 0)
          (JSON_parse_text e (file_bytes f)) s)),
        added := result_added (fst (importSavedPackage (Date_now e 0) (random_id e 0)
          (JSON_parse_text e (file_bytes f)) s)),
        packageSlidesAdded := result_added (fst (importSavedPackage (Date_now e 0) (random_id e 0)
          (JSON_parse_text e (file_bytes f)) s))\<rparr>,
      snd (importSavedPackage (Date_now e 0) (random_id e 0) (JSON_parse_text e (file_bytes f)) s))"
  using assms by (simp add: addFiles_single addFiles_step_def Let_def no_files_def)

lemma twin_slide_imported:
  "import_slide now random twin_slide (n, s) =
     Some (n + 1,
       snd (registerEntry \<lparr>blob_bytes = [65], blob_type = ''application/octet-stream''\<rparr>
              (JString ''Image'') (JArray [JString ''a'']) True (js_int now) s))"
  by (simp add: import_slide_def twin_slide_def decodable_example type_argument_def new_Blob_def
      Blob_type_def printable_ascii_def ascii_lower_def field_or_def js_or_def Let_def
      registerEntry_def Set_has_def)

lemma twin_package_imported:
  "importSavedPackage fixed_clock fixed_random (Some twin_package) first_state =
     (\<lparr>result_added = 2, result_total = 2, result_error = False\<rparr>,
      first_state\<lparr>imageEntries :=
          [\<lparr>entry_url = \<lparr>blob_bytes = [65], blob_type = ''application/octet-stream''\<rparr>,
            entry_signature = JArray [JString ''a''], entry_label = JString ''Image''\<rparr>,
           \<lparr>entry_url = \<lparr>blob_bytes = [65], blob_type = ''application/octet-stream''\<rparr>,
            entry_signature = JArray [JString ''a''], entry_label = JString ''Image''\<rparr>],
        imageSignatures := {JArray [JString ''a'']},
        slides_store := Some [(Key_array [Key_string ''a''],
           \<lparr>rec_signature = JArray [JString ''a''], rec_label = JString ''Image'',
            rec_addedAt = js_int 1700000000123, rec_bytes = [65],
            rec_type = ''application/octet-stream''\<rparr>)]\<rparr>)"
proof -
  have ok: "js_Number (data_version \<lparr>data_version = J_number (Finite 1), data_delay = None,
        data_slides = Some [twin_slide, twin_slide]\<rparr>) = SAVE_PACKAGE_VERSION"
    "data_slides \<lparr>data_version = J_number (Finite 1), data_delay = None,
        data_slides = Some [twin_slide, twin_slide]\<rparr> = Some [twin_slide, twin_slide]"
    by (simp_all add: SAVE_PACKAGE_VERSION_def)
  show ?thesis
    unfolding twin_package_def importSavedPackage_accepted [OF ok]
    by (simp add: twin_slide_imported Let_def fixed_clock_def registerEntry_def Set_has_def
        saveSlideRecord_def first_state_def str_or_def)
qed

text \<open>
  Claim C7, as stated, fails: on a first visit the user drops a package whose two slide
  entries both have the signature \<^verbatim>\<open>["a"]\<close>. Each entry is parsed into an array of its
  own, which the signature set does not hold, so both are registered: two entries of the
  gallery share their signature, while the store keeps one record under that key.
\<close>

theorem array_signature_registered_twice:
  "reachable any_input (snd (addFiles twin_env [package_file] (startup fixed_clock first_state))) \<and>
   added (fst (addFiles twin_env [package_file] (startup fixed_clock first_state))) = 2 \<and>
   map entry_signature
     (imageEntries (snd (addFiles twin_env [package_file] (startup fixed_clock first_state)))) =
     [JArray [JString ''a''], JArray [JString ''a'']] \<and>
   map rec_signature
     (stored_slides (snd (addFiles twin_env [package_file] (startup fixed_clock first_state)))) =
     [JArray [JString ''a'']] \<and>
   \<not> unique_signatures (snd (addFiles twin_env [package_file] (startup fixed_clock first_state)))"
proof -
  let ?s = "snd (addFiles twin_env [package_file] (startup fixed_clock first_state))"
  have "reachable any_input (startup fixed_clock first_state)"
    by (rule reachable.first_visit) (simp add: first_state_def)
  then have r: "reachable any_input ?s"
    by (rule reachable.ingest) (simp add: any_input_def)
  have env: "Date_now twin_env 0 = fixed_clock" "random_id twin_env 0 = fixed_random"
    "JSON_parse_text twin_env (file_bytes package_file) = Some twin_package"
    by (simp_all add: twin_env_def fixed_clock_def fixed_random_def fun_eq_iff)
  have run: "addFiles twin_env [package_file] first_state =
      (no_files\<lparr>packagesProcessed := 1, supported := 2, packageSlidesTotal := 2, added := 2,
         packageSlidesAdded := 2\<rparr>,
       snd (importSavedPackage fixed_clock fixed_random (Some twin_package) first_state))"
    using addFiles_package [OF package_file_candidate, of twin_env first_state]
    by (simp add: env twin_package_imported)
  have entries: "map entry_signature (imageEntries ?s) = [JArray [JString ''a''], JArray [JString ''a'']]"
    by (simp add: startup_first_state run twin_package_imported)
  have stored: "map rec_signature (stored_slides ?s) = [JArray [JString ''a'']]"
    by (simp add: startup_first_state run twin_package_imported stored_slides_def getAll_def)
  have "\<not> unique_signatures ?s"
    by (simp add: unique_signatures_def entries)
  with r entries stored show ?thesis
    by (simp add: startup_first_state run no_files_def)
qed

text \<open>
  Claim C7, amended. In every state the program can reach, no two records of the store
  share a signature, the signature set holds the signature of every entry of the gallery,
  and no two entries of the gallery share a signature that is a string, a number or a
  boolean (the values that the check \<^verbatim>\<open>imageSignatures.has(signature)\<close> of
  \<^verbatim>\<open>registerEntry\<close> compares by value); this still holds after an image is ingested,
  after a PDF is ingested, after a package is imported, after the store is restored, and
  after any single call of \<^verbatim>\<open>registerEntry\<close>. When the packages that the user supplies
  have no array and no object as the signature of a slide (the script itself writes
  strings), no two entries of the gallery share a signature at all, in every state
  reached and after each of these operations.
\<close>

theorem signatures_unique_in_every_state:
  "(reachable ok s \<longrightarrow>
      unique_plain_signatures s \<and>
      unique_plain_signatures (snd (addImageFile now f s)) \<and>
      unique_plain_signatures (snd (addPdfFile e pages_now f s)) \<and>
      unique_plain_signatures (snd (importSavedPackage slides_now random parsed s)) \<and>
      unique_plain_signatures (restorePersistedSlides restore_now s) \<and>
      unique_plain_signatures (snd (registerEntry b l g p a s))) \<and>
   (reachable plain_input s \<longrightarrow>
      unique_signatures s \<and>
      unique_signatures (snd (addImageFile now f s)) \<and>
      unique_signatures (snd (addPdfFile e pages_now f s)) \<and>
      (list_all plain_signature (doc_slides parsed) \<longrightarrow>
       unique_signatures (snd (importSavedPackage slides_now random parsed s))) \<and>
      unique_signatures (restorePersistedSlides restore_now s) \<and>
      (\<not> js_is_object g \<longrightarrow> unique_signatures (snd (registerEntry b l g p a s))))"
proof -
  have any: "unique_plain_signatures s \<and>
      unique_plain_signatures (snd (addImageFile now f s)) \<and>
      unique_plain_signatures (snd (addPdfFile e pages_now f s)) \<and>
      unique_plain_signatures (snd (importSavedPackage slides_now random parsed s)) \<and>
      unique_plain_signatures (restorePersistedSlides restore_now s) \<and>
      unique_plain_signatures (snd (registerEntry b l g p a s))"
    if "reachable ok s"
  proof -
    from that have c: "consistent s" by (rule reachable_consistent)
    show ?thesis
      by (simp add: consistent_unique c addImageFile_consistent addPdfFile_consistent
          importSavedPackage_consistent restorePersistedSlides_consistent registerEntry_consistent)
  qed
  have plain: "unique_signatures s \<and>
      unique_signatures (snd (addImageFile now f s)) \<and>
      unique_signatures (snd (addPdfFile e pages_now f s)) \<and>
      (list_all plain_signature (doc_slides parsed) \<longrightarrow>
       unique_signatures (snd (importSavedPackage slides_now random parsed s))) \<and>
      unique_signatures (restorePersistedSlides restore_now s) \<and>
      (\<not> js_is_object g \<longrightarrow> unique_signatures (snd (registerEntry b l g p a s)))"
    if "reachable plain_input s"
  proof -
    from that have c: "consistent s" by (rule reachable_consistent)
    from that have q: "plain_state s" by (rule reachable_plain)
    show ?thesis
      by (simp add: plain_unique c q addImageFile_consistent addPdfFile_consistent
          importSavedPackage_consistent restorePersistedSlides_consistent registerEntry_consistent
          addImageFile_plain addPdfFile_plain importSavedPackage_plain
          restorePersistedSlides_plain registerEntry_plain)
  qed
  from any plain show ?thesis by blast
qed

lemma no_packages:
  "JSON_parse_text e = (\<lambda>bytes. None) \<Longrightarrow> batch_slides e files = []"
  by (simp add: batch_slides_def doc_slides_def)

theorem signatures_unique_in_every_state_witness:
  "unique_signatures (snd (addFiles pdf_env [photo, talk_a, talk_b] (startup fixed_clock first_state))) \<and>
   unique_signatures
     (snd (importSavedPackage fixed_clock fixed_random (Some (Json_object six_slides))
        (snd (addFiles pdf_env [photo, talk_a, talk_b] (startup fixed_clock first_state))))) \<and>
   unique_signatures
     (snd (registerEntry (file_blob photo) (JString ''x'') (JString ''x'') False (js_int 1)
        (snd (addFiles pdf_env [photo, talk_a, talk_b] (startup fixed_clock first_state))))) \<and>
   unique_plain_signatures
     (snd (addFiles twin_env [package_file] (startup fixed_clock first_state)))"
proof -
  let ?s = "snd (addFiles pdf_env [photo, talk_a, talk_b] (startup fixed_clock first_state))"
  let ?t = "snd (addFiles twin_env [package_file] (startup fixed_clock first_state))"
  have "plain_input pdf_env [photo, talk_a, talk_b]"
    by (simp add: plain_input_def no_packages pdf_env_def)
  moreover have "reachable plain_input (startup fixed_clock first_state)"
    by (rule reachable.first_visit) (simp add: first_state_def)
  ultimately have s: "reachable plain_input ?s"
    by (intro reachable.ingest)
  have "reachable any_input (startup fixed_clock first_state)"
    by (rule reachable.first_visit) (simp add: first_state_def)
  then have t: "reachable any_input ?t"
    by (rule reachable.ingest) (simp add: any_input_def)
  have six: "list_all plain_signature (doc_slides (Some (Json_object six_slides)))"
    by (simp add: doc_slides_def six_slides_def good_slide_def bad_slide_def bad_object_def
        plain_signature_def)
  have x: "\<not> js_is_object (JString ''x'')" by simp
  from signatures_unique_in_every_state [of plain_input ?s 0 photo pdf_env fixed_clock fixed_clock
      fixed_random "Some (Json_object six_slides)" fixed_clock "file_blob photo" "JString ''x''"
      "JString ''x''" False "js_int 1"] s six x
  have "unique_signatures ?s \<and>
      unique_signatures (snd (importSavedPackage fixed_clock fixed_random
        (Some (Json_object six_slides)) ?s)) \<and>
      unique_signatures (snd (registerEntry (file_blob photo) (JString ''x'') (JString ''x'')
        False (js_int 1) ?s))"
    by simp
  moreover from signatures_unique_in_every_state [of any_input ?t 0 photo pdf_env fixed_clock
      fixed_clock fixed_random None fixed_clock "file_blob photo" JNull JNull False JNull] t
  have "unique_plain_signatures ?t" by simp
  ultimately show ?thesis by simp
qed

section \<open>Records that pass through a package\<close>












lemma portable_timed: "record_portable r \<Longrightarrow> timed_record r"
  by (simp add: record_portable_def timed_record_def)

section \<open>Restoring at the start of a session\<close>



lemma stored_record_number [simp]: "addedAt_number (stored_record g t) = Finite (of_int t)"
  by (simp add: addedAt_number_def stored_record_def js_int_def js_or_def)





section \<open>Export and import\<close>


























end
